theory Spec2Isabelle
  imports Main "HOL-Library.Word" "HOL-Library.AList"
begin

unbundle bit_operations_syntax

section \<open>JavaScript values as the manifest holds them\<close>

text \<open>
  \<^verbatim>\<open>JSON.parse\<close> yields null, booleans, numbers (IEEE doubles, kept here as their 64 bits),
  strings, arrays and objects. An object is the list of its own properties in enumeration
  order. An array is an object too: next to its elements it carries the named properties
  that an assignment such as \<^verbatim>\<open>arr['build'] = v\<close> creates. A property read that finds
  nothing gives \<^verbatim>\<open>undefined\<close>, which is \<open>None\<close> below.
\<close>

datatype json =
    JNull
  | JBool bool
  | JNum "64 word"
  | JStr string
  | JArr "json list" "(string \<times> json) list"
  | JObj "(string \<times> json) list"

datatype error = TypeError

text \<open>
  ToBoolean, as \<^verbatim>\<open>!x\<close> and \<^verbatim>\<open>x || y\<close> apply it: null, false, the empty string, both
  zeros and NaN are falsy; every object and array is truthy.
\<close>

definition num_truthy :: "64 word \<Rightarrow> bool" where
  "num_truthy w =
     (let m = w AND 0x7FFFFFFFFFFFFFFF in m \<noteq> 0 \<and> m \<le> 0x7FF0000000000000)"

fun truthy :: "json \<Rightarrow> bool" where
  "truthy JNull = False"
| "truthy (JBool b) = b"
| "truthy (JNum w) = num_truthy w"
| "truthy (JStr s) = (s \<noteq> [])"
| "truthy (JArr xs ps) = True"
| "truthy (JObj kvs) = True"

fun truthy_opt :: "json option \<Rightarrow> bool" where
  "truthy_opt None = False"
| "truthy_opt (Some v) = truthy v"

text \<open>
  \<^verbatim>\<open>o[k]\<close> and \<^verbatim>\<open>o[k] = v\<close> for the property names this program uses (none of them is an
  array index or a property of a built-in prototype). Reading a property of null throws;
  on a primitive the read gives undefined and the write, in sloppy mode, does nothing.
  Writing an existing property keeps its place; a new one goes last.
\<close>

fun jget :: "json \<Rightarrow> string \<Rightarrow> error + json option" where
  "jget JNull k = Inl TypeError"
| "jget (JObj kvs) k = Inr (map_of kvs k)"
| "jget (JArr xs ps) k = Inr (map_of ps k)"
| "jget v k = Inr None"

fun jset :: "json \<Rightarrow> string \<Rightarrow> json \<Rightarrow> error + json" where
  "jset JNull k v = Inl TypeError"
| "jset (JObj kvs) k v = Inr (JObj (AList.update k v kvs))"
| "jset (JArr xs ps) k v = Inr (JArr xs (AList.update k v ps))"
| "jset p k v = Inr p"

section \<open>The manifest merge (main, "Merge fields")\<close>

definition default_simple :: "(string \<times> json) list" where
  "default_simple =
     [(''type'', JStr ''module''),
      (''main'', JStr ''dist/cjs/index.cjs''),
      (''module'', JStr ''dist/esm/index.js''),
      (''types'', JStr ''dist/types/index.d.ts''),
      (''files'', JArr [JStr ''dist/''] [])]"

definition default_exports :: json where
  "default_exports =
     JObj [(''.'', JObj [(''import'', JStr ''./dist/esm/index.js''),
                         (''require'', JStr ''./dist/cjs/index.cjs''),
                         (''types'', JStr ''./dist/types/index.d.ts'')])]"

definition default_scripts :: "(string \<times> json) list" where
  "default_scripts =
     [(''build:js'', JStr ''rollup -c''),
      (''build:types'', JStr ''tsc -p tsconfig.types.json''),
      (''build'', JStr ''npm run build:js && npm run build:types''),
      (''prepublishOnly'', JStr ''npm run build'')]"

text \<open>\<^verbatim>\<open>if (!o[k]) o[k] = d\<close>\<close>

definition fill :: "json \<Rightarrow> string \<times> json \<Rightarrow> error + json" where
  "fill obj kd =
     (case jget obj (fst kd) of
        Inl e \<Rightarrow> Inl e
      | Inr cur \<Rightarrow> if truthy_opt cur then Inr obj else jset obj (fst kd) (snd kd))"

text \<open>\<^verbatim>\<open>if (!pkg.scripts[k]) pkg.scripts[k] = v\<close>: the scripts value is mutated in place.\<close>

definition fillScript :: "json \<Rightarrow> string \<times> json \<Rightarrow> error + json" where
  "fillScript pkg kv =
     (case jget pkg ''scripts'' of
        Inl e \<Rightarrow> Inl e
      | Inr None \<Rightarrow> Inl TypeError
      | Inr (Some s) \<Rightarrow>
          (case fill s kv of
             Inl e \<Rightarrow> Inl e
           | Inr s' \<Rightarrow> jset pkg ''scripts'' s'))"

text \<open>A \<^verbatim>\<open>for ... of\<close> loop whose body may throw.\<close>

fun forEach :: "('a \<Rightarrow> 'b \<Rightarrow> error + 'a) \<Rightarrow> 'b list \<Rightarrow> 'a \<Rightarrow> error + 'a" where
  "forEach f [] a = Inr a"
| "forEach f (x # xs) a = (case f a x of Inl e \<Rightarrow> Inl e | Inr a' \<Rightarrow> forEach f xs a')"

text \<open>\<^verbatim>\<open>pkg.scripts = pkg.scripts || {}\<close>\<close>

definition initScripts :: "json \<Rightarrow> error + json" where
  "initScripts pkg =
     (case jget pkg ''scripts'' of
        Inl e \<Rightarrow> Inl e
      | Inr cur \<Rightarrow>
          jset pkg ''scripts''
            (case cur of None \<Rightarrow> JObj [] | Some s \<Rightarrow> if truthy s then s else JObj []))"

definition mergeManifest :: "json \<Rightarrow> error + json" where
  "mergeManifest pkg =
     (case forEach fill default_simple pkg of
        Inl e \<Rightarrow> Inl e
      | Inr p1 \<Rightarrow>
          (case fill p1 (''exports'', default_exports) of
             Inl e \<Rightarrow> Inl e
           | Inr p2 \<Rightarrow>
               (case initScripts p2 of
                  Inl e \<Rightarrow> Inl e
                | Inr p3 \<Rightarrow> forEach fillScript default_scripts p3)))"


section \<open>What a run does that can be observed\<close>

text \<open>
  The console lines (\<^verbatim>\<open>console.log\<close>, \<^verbatim>\<open>console.error\<close>), the completed file writes (the
  path and the bytes written) and the subprocesses started, in the order they happen.
\<close>

type_synonym path = string

datatype event =
    Log string
  | Err string
  | WriteFile path string
  | Spawn string "string list"
  | ExecSync string

section \<open>Constant data\<close>

definition devDeps :: "string list" where
  "devDeps =
     [''@rollup/plugin-commonjs@^29.0.0'',
      ''@rollup/plugin-node-resolve@^16.0.3'',
      ''rollup@^2.79.2'',
      ''rollup-plugin-terser@^7.0.2'',
      ''typescript@^5.9.3'',
      ''@types/node@^24.10.1'']"

definition usage_text :: string where
  \<open>usage_text = ''
Usage:
  roll-up --pkg <npm|pnpm|yarn> [options]

Options:
  -h, --help           Help
  -p, --pkg <manager>  Package manager to use for installing devDependencies. one of: npm, pnpm, yarn
  --no-install         Do not install devDependencies
  --force              Overwrite existing generated files
  --name "Your Name"   Author name used in LICENSE (falls back to package.json.author or git config)

Examples:
  roll-up --pkg pnpm
  roll-up --pkg yarn --force --name "Jane"
  roll-up --no-install
''\<close>

text \<open>\<^verbatim>\<open>usage()\<close> prints one console line.\<close>

definition usage :: "event list" where
  "usage = [Log usage_text]"

section \<open>parseArgs\<close>

record opts =
  noInstall :: bool
  force :: bool
  name :: "string option"
  pkg :: string

text \<open>
  \<^verbatim>\<open>toLowerCase\<close> on the characters a \<open>string\<close> holds, read as code points below 256: the
  letters A to Z move to a to z. (No other character lower-cases to a letter of
  \<^verbatim>\<open>npm\<close>, \<^verbatim>\<open>pnpm\<close> or \<^verbatim>\<open>yarn\<close>, and the lowered value is only kept when it is one of
  these three.)
\<close>

definition lower_char :: "char \<Rightarrow> char" where
  "lower_char c =
     (let n = of_char c :: nat in if 65 \<le> n \<and> n \<le> 90 then char_of (n + 32) else c)"

definition toLowerCase :: "string \<Rightarrow> string" where
  "toLowerCase s = map lower_char s"

definition initial_opts :: opts where
  "initial_opts = \<lparr>noInstall = False, force = False, name = None, pkg = ''npm''\<rparr>"

text \<open>
  The loop over \<^verbatim>\<open>raw\<close>, from position \<^verbatim>\<open>i\<close> on: the list is \<^verbatim>\<open>raw.slice(i)\<close>. The result
  is what was printed and either the exit code of \<^verbatim>\<open>process.exit\<close> or the record.
  \<^verbatim>\<open>raw[i+1]\<close> is falsy when there is no next argument and when it is the empty string.
\<close>

fun parseLoop :: "opts \<Rightarrow> string list \<Rightarrow> event list \<times> (nat + opts)" where
  "parseLoop out [] = ([], Inr out)"
| "parseLoop out (a # rest) =
     (if a = ''-h'' \<or> a = ''--help'' then (usage, Inl 0)
      else if a = ''--no-install'' then parseLoop (out\<lparr>noInstall := True\<rparr>) rest
      else if a = ''--force'' then parseLoop (out\<lparr>force := True\<rparr>) rest
      else if a = ''--name'' then
        (case rest of
           [] \<Rightarrow> parseLoop out rest
         | v # rest' \<Rightarrow>
             if v \<noteq> [] then parseLoop (out\<lparr>name := Some v\<rparr>) rest'
             else parseLoop out rest)
      else if a = ''--pkg'' \<or> a = ''-p'' then
        (case rest of
           [] \<Rightarrow> (Err ''--pkg requires a value (npm, pnpm, yarn)'' # usage, Inl 1)
         | v # rest' \<Rightarrow>
             if v \<noteq> [] then
               (let val = toLowerCase v in
                if val \<notin> set [''npm'', ''pnpm'', ''yarn'']
                then (Err (''Unsupported package manager: '' @ v) # usage, Inl 1)
                else parseLoop (out\<lparr>pkg := val\<rparr>) rest')
             else (Err ''--pkg requires a value (npm, pnpm, yarn)'' # usage, Inl 1))
      else parseLoop out rest)"

definition parseArgs :: "string list \<Rightarrow> event list \<times> (nat + opts)" where
  "parseArgs raw = (if raw = [] then (usage, Inl 0) else parseLoop initial_opts raw)"

section \<open>The template file set and the generated texts\<close>

definition rollup_config_js :: string where
  \<open>rollup_config_js = ''import resolve from '@rollup/plugin-node-resolve';
import commonjs from '@rollup/plugin-commonjs';
import { terser } from 'rollup-plugin-terser';

export default {
  input: 'src/index.js',
  plugins: [ resolve(), commonjs(), terser() ],
  external: [], // list external packages here (keep peer deps external)
  output: [
    {
      file: 'dist/esm/index.js',
      format: 'esm',
      sourcemap: true
    },
    {
      file: 'dist/cjs/index.cjs',
      format: 'cjs',
      sourcemap: true
    }
  ]
};
''\<close>

definition tsconfig_types_json :: string where
  \<open>tsconfig_types_json = ''{
  "compilerOptions": {
    "declaration": true,
    "emitDeclarationOnly": true,
    "allowJs": true,
    "outDir": "dist/types",
    "rootDir": "src",
    "declarationMap": false,
    "moduleResolution": "node",
    "target": "ES2019",
    "module": "ESNext",
    "strict": false,
    "esModuleInterop": true,
    "skipLibCheck": true
  },
  "include": ["src/**/*.js"]
}
''\<close>

definition gitignore :: string where
  \<open>gitignore = ''# ignore everything by default
*

# allow package metadata files
!package.json
!package-lock.json
!README.md
!LICENSE
!CHANGELOG.md

''\<close>

definition npmignore :: string where
  \<open>npmignore = ''# the same as .gitignore for this setup:
*
!dist/
!dist/**
!package.json
!README.md
!LICENSE
!CHANGELOG.md
!dist/**/*.d.ts
''\<close>

definition readme_md :: string where
  \<open>readme_md = ''# Project

This repository was prepared by the `roll-up package` script. Edit this README to explain your project.
''\<close>

text \<open>\<^verbatim>\<open>Object.entries(DEFAULT_FILES)\<close>: the entries in the order the object literal lists them.\<close>

definition DEFAULT_FILES :: "(string \<times> string) list" where
  "DEFAULT_FILES =
     [(''rollup.config.js'', rollup_config_js),
      (''tsconfig.types.json'', tsconfig_types_json),
      (''.gitignore'', gitignore),
      (''.npmignore'', npmignore),
      (''README.md'', readme_md)]"

definition stub :: string where
  \<open>stub = ''// src/index.js
/**
 * @returns {string}
 */
export function hello() {
  return 'hello';
}

''\<close>

definition license_tail :: string where
  \<open>license_tail = ''

Permission is hereby granted, free of charge, to any person obtaining a copy
of this software and associated documentation files (the "Software"), to deal
in the Software without restriction, including without limitation the rights
to use, copy, modify, merge, publish, distribute, sublicense, and/or sell
copies of the Software, and to permit persons to whom the Software is
furnished to do so, subject to the following conditions:

The above copyright notice and this permission notice shall be included in all
copies or substantial portions of the Software.

THE SOFTWARE IS PROVIDED "AS IS", WITHOUT WARRANTY OF ANY KIND, EXPRESS OR
IMPLIED, INCLUDING BUT NOT LIMITED TO THE WARRANTIES OF MERCHANTABILITY,
FITNESS FOR A PARTICULAR PURPOSE AND NONINFRINGEMENT. IN NO EVENT SHALL THE
AUTHORS OR COPYRIGHT HOLDERS BE LIABLE FOR ANY CLAIM, DAMAGES OR OTHER
LIABILITY, WHETHER IN AN ACTION OF CONTRACT, TORT OR OTHERWISE, ARISING FROM,
OUT OF OR IN CONNECTION WITH THE SOFTWARE OR THE USE OR OTHER DEALINGS IN THE
SOFTWARE.
''\<close>

text \<open>The template literal \<^verbatim>\<open>licenseText\<close>, with the texts of \<^verbatim>\<open>${year}\<close> and \<^verbatim>\<open>${name}\<close>.\<close>

definition licenseText :: "string \<Rightarrow> string \<Rightarrow> string" where
  \<open>licenseText year_text name_text =
     ''MIT License

Copyright (c) '' @ year_text @ '' '' @ name_text @ license_tail\<close>

text \<open>The decimal digits of a natural number, as a template literal prints it.\<close>

fun dec :: "nat \<Rightarrow> string" where
  "dec n = (if n < 10 then [''0123456789'' ! n] else dec (n div 10) @ [''0123456789'' ! (n mod 10)])"

text \<open>\<^verbatim>\<open>xs.join(' ')\<close>\<close>

fun join_sp :: "string list \<Rightarrow> string" where
  "join_sp [] = []"
| "join_sp [x] = x"
| "join_sp (x # y # ys) = x @ '' '' @ join_sp (y # ys)"

text \<open>
  \<^verbatim>\<open>trim()\<close> on code points below 256: tab, line feed, vertical tab, form feed, carriage
  return, space and no-break space are dropped from both ends.
\<close>

definition js_space :: "char \<Rightarrow> bool" where
  "js_space c = ((of_char c :: nat) \<in> set [9, 10, 11, 12, 13, 32, 160])"

definition trim :: "string \<Rightarrow> string" where
  "trim s = rev (dropWhile js_space (rev (dropWhile js_space s)))"

section \<open>UTF-8\<close>

text \<open>
  The strings of the program are modelled by \<open>string\<close>, whose characters are read as the code
  points below 256. The text of a file that was read can hold any code point, so it is a list
  of code points; \<open>code_points\<close> embeds a string of the program.
\<close>

definition code_points :: "string \<Rightarrow> nat list" where
  "code_points s = map of_char s"

text \<open>The Unicode scalar values: the code points that are not surrogates.\<close>

definition scalar :: "nat \<Rightarrow> bool" where
  "scalar cp = (cp < 0xD800 \<or> (0xE000 \<le> cp \<and> cp < 0x110000))"

text \<open>
  The encoder of \<^verbatim>\<open>fs.writeFile(p, s, 'utf8')\<close>: one to four bytes for a code point; an
  unpaired surrogate is written as the bytes of U+FFFD.
\<close>

definition utf8_bytes :: "nat \<Rightarrow> nat list" where
  "utf8_bytes cp =
     (if cp < 0x80 then [cp]
      else if cp < 0x800 then [0xC0 + cp div 64, 0x80 + cp mod 64]
      else if \<not> scalar cp then [0xEF, 0xBF, 0xBD]
      else if cp < 0x10000 then [0xE0 + cp div 4096, 0x80 + cp div 64 mod 64, 0x80 + cp mod 64]
      else [0xF0 + cp div 262144, 0x80 + cp div 4096 mod 64, 0x80 + cp div 64 mod 64,
            0x80 + cp mod 64])"

definition utf8_encode :: "nat list \<Rightarrow> string" where
  "utf8_encode t = concat (map (\<lambda>cp. map char_of (utf8_bytes cp)) t)"

text \<open>
  The decoder of \<^verbatim>\<open>fs.readFile(p, 'utf8')\<close>. Its state is the code point collected so far,
  the number of continuation bytes still needed, and the bounds of the next byte. A byte
  that cannot continue the sequence ends it with U+FFFD and is read again as the start of
  the next one; a byte that cannot start a sequence gives U+FFFD; so does a sequence that
  the end of the input cuts short. A byte order mark is kept.
\<close>

fun utf8_dec :: "nat \<times> nat \<times> nat \<times> nat \<Rightarrow> string \<Rightarrow> nat list" where
  "utf8_dec (cp, needed, lower, upper) [] = (if needed = 0 then [] else [0xFFFD])"
| "utf8_dec (cp, needed, lower, upper) (c # cs) =
     (let b = of_char c in
      if needed \<noteq> 0 \<and> lower \<le> b \<and> b \<le> upper then
        (if needed = 1 then (cp * 64 + (b - 0x80)) # utf8_dec (0, 0, 0x80, 0xBF) cs
         else utf8_dec (cp * 64 + (b - 0x80), needed - 1, 0x80, 0xBF) cs)
      else
        (if needed \<noteq> 0 then [0xFFFD] else []) @
        (if b < 0x80 then b # utf8_dec (0, 0, 0x80, 0xBF) cs
         else if 0xC2 \<le> b \<and> b \<le> 0xDF then utf8_dec (b - 0xC0, 1, 0x80, 0xBF) cs
         else if 0xE0 \<le> b \<and> b \<le> 0xEF then
           utf8_dec (b - 0xE0, 2, if b = 0xE0 then 0xA0 else 0x80,
                     if b = 0xED then 0x9F else 0xBF) cs
         else if 0xF0 \<le> b \<and> b \<le> 0xF4 then
           utf8_dec (b - 0xF0, 3, if b = 0xF0 then 0x90 else 0x80,
                     if b = 0xF4 then 0x8F else 0xBF) cs
         else 0xFFFD # utf8_dec (0, 0, 0x80, 0xBF) cs))"

definition utf8_decode :: "string \<Rightarrow> nat list" where
  "utf8_decode bs = utf8_dec (0, 0, 0x80, 0xBF) bs"

section \<open>The file system, the environment and the run\<close>

text \<open>
  A file holds bytes: each character of its content is one byte. \<^verbatim>\<open>fs.readFile(p, 'utf8')\<close>
  decodes them and \<^verbatim>\<open>fs.writeFile(p, s, 'utf8')\<close> stores the UTF-8 encoding of \<^verbatim>\<open>s\<close>.
  \<^verbatim>\<open>existsSync\<close> is true of files and of directories.
\<close>

datatype node = File string | Dir

record world =
  fs :: "path \<rightharpoonup> node"
  trace :: "event list"

datatype io_op = Read | Write | MkDir

datatype failure =
    IOError io_op path
  | SyntaxError
  | Thrown error

text \<open>How the installer subprocess ends: it closes with an exit code (\<open>None\<close> is the
  \<^verbatim>\<open>null\<close> code of a process ended by a signal), it cannot be started, or it never closes.\<close>

datatype proc_result = Closed "nat option" | SpawnError | NeverCloses

text \<open>
  How a run ends: \<^verbatim>\<open>process.exit(n)\<close>; \<^verbatim>\<open>main\<close> returning; the promise of \<^verbatim>\<open>main\<close> rejected
  by an exception nobody catches; an \<^verbatim>\<open>error\<close> event of the child process that has no
  listener; or waiting for ever for a child that does not close.
\<close>

datatype outcome = Exit nat | Returned | Rejected failure | Crashed | Hung

text \<open>
  What the run takes from outside the program: the working directory, the clock, the
  runtime's JSON functions (\<^verbatim>\<open>JSON.parse\<close> takes the text read from the manifest; \<open>None\<close>: it
  throws) and its ToString for values that are not strings (\<open>None\<close>: it throws), which file operations fail, what \<^verbatim>\<open>git config --get user.name\<close> prints (\<open>None\<close>:
  \<^verbatim>\<open>execSync\<close> throws), and how the installer ends.
\<close>

record env =
  cwd :: path
  now :: nat
  year :: nat
  json_parse :: "nat list \<Rightarrow> json option"
  json_stringify :: "json \<Rightarrow> string"
  js_to_string :: "json \<Rightarrow> string option"
  io_fails :: "io_op \<Rightarrow> path \<Rightarrow> bool"
  git_user_name :: "string option"
  installer :: "string \<Rightarrow> string list \<Rightarrow> proc_result"

text \<open>\<^verbatim>\<open>path.join(cwd, name)\<close> with POSIX separators; \<^verbatim>\<open>process.cwd()\<close> ends in a slash only
  when it is the root.\<close>

definition path_join :: "path \<Rightarrow> string \<Rightarrow> path" where
  "path_join d n = (if d = ''/'' then d @ n else d @ ''/'' @ n)"

definition existsSync :: "world \<Rightarrow> path \<Rightarrow> bool" where
  "existsSync w p = (fs w p \<noteq> None)"

definition emit :: "event list \<Rightarrow> world \<Rightarrow> world" where
  "emit es w = w\<lparr>trace := trace w @ es\<rparr>"

definition readFile :: "env \<Rightarrow> path \<Rightarrow> world \<Rightarrow> failure + nat list" where
  "readFile e p w =
     (case fs w p of
        Some (File s) \<Rightarrow> if io_fails e Read p then Inl (IOError Read p) else Inr (utf8_decode s)
      | _ \<Rightarrow> Inl (IOError Read p))"

definition writeFile :: "env \<Rightarrow> path \<Rightarrow> nat list \<Rightarrow> world \<Rightarrow> failure + world" where
  "writeFile e p s w =
     (if fs w p = Some Dir \<or> io_fails e Write p then Inl (IOError Write p)
      else Inr (w\<lparr>fs := (fs w)(p \<mapsto> File (utf8_encode s)),
                 trace := trace w @ [WriteFile p (utf8_encode s)]\<rparr>))"

text \<open>\<^verbatim>\<open>fs.mkdir(p, { recursive: true })\<close>: nothing to do when the directory is there.\<close>

definition mkdir :: "env \<Rightarrow> path \<Rightarrow> world \<Rightarrow> failure + world" where
  "mkdir e p w =
     (case fs w p of
        Some Dir \<Rightarrow> Inr w
      | Some (File s) \<Rightarrow> Inl (IOError MkDir p)
      | None \<Rightarrow> if io_fails e MkDir p then Inl (IOError MkDir p)
                else Inr (w\<lparr>fs := (fs w)(p \<mapsto> Dir)\<rparr>))"

subsection \<open>safeWrite\<close>

text \<open>The directory of \<^verbatim>\<open>filePath\<close> is passed along: \<^verbatim>\<open>path.dirname(filePath)\<close>. A failure
  of \<^verbatim>\<open>mkdir\<close> is caught and dropped; a failure of \<^verbatim>\<open>writeFile\<close> is not.\<close>

definition safeWrite :: "env \<Rightarrow> path \<Rightarrow> path \<Rightarrow> string \<Rightarrow> bool \<Rightarrow> world \<Rightarrow> (failure + bool) \<times> world" where
  "safeWrite e dir filePath content frc w =
     (if existsSync w filePath \<and> \<not> frc
      then (Inr False,
            emit [Log (''Skipping '' @ filePath @ '' (exists). Use --force to overwrite.'')] w)
      else
        (let w1 = (case mkdir e dir w of Inl x \<Rightarrow> w | Inr w' \<Rightarrow> w') in
         case writeFile e filePath (code_points content) w1 of
           Inl x \<Rightarrow> (Inl x, w1)
         | Inr w2 \<Rightarrow> (Inr True, emit [Log (''Wrote '' @ filePath)] w2)))"

subsection \<open>main, stage by stage\<close>

text \<open>Each stage returns \<open>None\<close> to go on, or how the run ended.\<close>

definition writeStub :: "env \<Rightarrow> opts \<Rightarrow> world \<Rightarrow> outcome option \<times> world" where
  "writeStub e opts w =
     (let srcIndex = path_join (path_join (cwd e) ''src'') ''index.js'' in
      if \<not> existsSync w srcIndex \<or> force opts then
        (case mkdir e (path_join (cwd e) ''src'') w of
           Inl x \<Rightarrow> (Some (Rejected x), w)
         | Inr w1 \<Rightarrow>
             (case writeFile e srcIndex (code_points stub) w1 of
                Inl x \<Rightarrow> (Some (Rejected x), w1)
              | Inr w2 \<Rightarrow> (None, emit [Log ''Wrote src/index.js (stub).''] w2)))
      else (None, emit [Log ''Skipping src/index.js (exists).''] w))"

fun writeTemplates :: "env \<Rightarrow> opts \<Rightarrow> (string \<times> string) list \<Rightarrow> world \<Rightarrow> outcome option \<times> world" where
  "writeTemplates e opts [] w = (None, w)"
| "writeTemplates e opts ((fname, content) # rest) w =
     (case safeWrite e (cwd e) (path_join (cwd e) fname) content (force opts) w of
        (Inl x, w1) \<Rightarrow> (Some (Rejected x), w1)
      | (Inr ok, w1) \<Rightarrow> writeTemplates e opts rest w1)"

text \<open>
  \<^verbatim>\<open>opts.name || pkg.author || (await (async () => { ... })())\<close>: the value and the world
  after it. \<^verbatim>\<open>execSync\<close> runs only when the first two are falsy.
\<close>

definition gitName :: "env \<Rightarrow> string" where
  "gitName e =
     (case git_user_name e of
        None \<Rightarrow> ''Your Name''
      | Some printed \<Rightarrow> (let n = trim printed in if n \<noteq> [] then n else ''Your Name''))"

definition authorName :: "env \<Rightarrow> opts \<Rightarrow> json \<Rightarrow> world \<Rightarrow> (failure + json) \<times> world" where
  "authorName e opts pkgObj w =
     (let fromGit = (Inr (JStr (gitName e)), emit [ExecSync ''git config --get user.name''] w) in
      case name opts of
        Some (c # cs) \<Rightarrow> (Inr (JStr (c # cs)), w)
      | _ \<Rightarrow>
          (case jget pkgObj ''author'' of
             Inl x \<Rightarrow> (Inl (Thrown x), w)
           | Inr None \<Rightarrow> fromGit
           | Inr (Some a) \<Rightarrow> if truthy a then (Inr a, w) else fromGit))"

text \<open>\<^verbatim>\<open>${name}\<close> in the template literal.\<close>

definition interpolate :: "env \<Rightarrow> json \<Rightarrow> failure + string" where
  "interpolate e v =
     (case v of
        JStr s \<Rightarrow> Inr s
      | _ \<Rightarrow> (case js_to_string e v of None \<Rightarrow> Inl (Thrown TypeError) | Some s \<Rightarrow> Inr s))"

definition writeLicense :: "env \<Rightarrow> opts \<Rightarrow> json \<Rightarrow> world \<Rightarrow> outcome option \<times> world" where
  "writeLicense e opts pkgObj w =
     (let licensePath = path_join (cwd e) ''LICENSE'' in
      if \<not> existsSync w licensePath \<or> force opts then
        (case authorName e opts pkgObj w of
           (Inl x, w1) \<Rightarrow> (Some (Rejected x), w1)
         | (Inr v, w1) \<Rightarrow>
             (case interpolate e v of
                Inl x \<Rightarrow> (Some (Rejected x), w1)
              | Inr name_text \<Rightarrow>
                  (case writeFile e licensePath (code_points (licenseText (dec (year e)) name_text)) w1 of
                     Inl x \<Rightarrow> (Some (Rejected x), w1)
                   | Inr w2 \<Rightarrow> (None, emit [Log ''Wrote LICENSE''] w2))))
      else (None, emit [Log ''Skipping LICENSE (exists).''] w))"

text \<open>
  \<^verbatim>\<open>runCmd\<close>: the child is spawned; the promise resolves when it closes with code 0 and is
  rejected with the message \<^verbatim>\<open>cmd + ' exited ' + code\<close> when it closes otherwise.
\<close>

datatype cmd_result = Resolved | RejectedWith string | Ended outcome

definition runCmd :: "env \<Rightarrow> string \<Rightarrow> string list \<Rightarrow> world \<Rightarrow> cmd_result \<times> world" where
  "runCmd e cmd args w =
     (let w1 = emit [Spawn cmd args] w in
      case installer e cmd args of
        Closed code \<Rightarrow>
          if code = Some 0 then (Resolved, w1)
          else (RejectedWith (cmd @ '' exited '' @ (case code of None \<Rightarrow> ''null'' | Some n \<Rightarrow> dec n)), w1)
      | SpawnError \<Rightarrow> (Ended Crashed, w1)
      | NeverCloses \<Rightarrow> (Ended Hung, w1))"

text \<open>The \<^verbatim>\<open>try\<close> block of the installation: which command runs, or the error thrown.\<close>

definition tryInstall :: "env \<Rightarrow> opts \<Rightarrow> world \<Rightarrow> cmd_result \<times> world" where
  "tryInstall e opts w =
     (if pkg opts = ''npm'' then runCmd e ''npm'' ([''install'', ''--save-dev''] @ devDeps) w
      else if pkg opts = ''pnpm'' then runCmd e ''pnpm'' ([''add'', ''-D''] @ devDeps) w
      else if pkg opts = ''yarn'' then runCmd e ''yarn'' ([''add'', ''--dev''] @ devDeps) w
      else (RejectedWith (''Unsupported package manager: '' @ pkg opts), w))"

text \<open>The \<^verbatim>\<open>catch\<close> block: what it prints.\<close>

definition installFailed :: "opts \<Rightarrow> string \<Rightarrow> event list" where
  "installFailed opts message =
     Err (pkg opts @ '' install failed: '' @ message) #
     (if pkg opts = ''npm'' then [Err (''You may retry manually: npm install --save-dev '' @ join_sp devDeps)]
      else if pkg opts = ''pnpm'' then [Err (''You may retry manually: pnpm add -D '' @ join_sp devDeps)]
      else if pkg opts = ''yarn'' then [Err (''You may retry manually: yarn add --dev '' @ join_sp devDeps)]
      else [])"

definition install :: "env \<Rightarrow> opts \<Rightarrow> world \<Rightarrow> outcome \<times> world" where
  "install e opts w =
     (if noInstall opts then
        (Exit 0, emit [Log ''Skipping install ( --no-install )'',
                       Log ''Done. Review and commit the changes if OK.''] w)
      else
        (case tryInstall e opts (emit [Log (''Installing devDependencies: '' @ join_sp devDeps)] w) of
           (Resolved, w1) \<Rightarrow>
             (Returned, emit [Log ''Installed devDependencies.'',
                              Log ''All done. Run `npm run build` to verify the build works.''] w1)
         | (RejectedWith message, w1) \<Rightarrow> (Exit 2, emit (installFailed opts message) w1)
         | (Ended how, w1) \<Rightarrow> (how, w1)))"

text \<open>The stages after the manifest has been rewritten.\<close>

definition generate :: "env \<Rightarrow> opts \<Rightarrow> json \<Rightarrow> world \<Rightarrow> outcome \<times> world" where
  "generate e opts pkgObj w =
     (case writeStub e opts w of
        (Some how, w1) \<Rightarrow> (how, w1)
      | (None, w1) \<Rightarrow>
          (case writeTemplates e opts DEFAULT_FILES w1 of
             (Some how, w2) \<Rightarrow> (how, w2)
           | (None, w2) \<Rightarrow>
               (case writeLicense e opts pkgObj w2 of
                  (Some how, w3) \<Rightarrow> (how, w3)
                | (None, w3) \<Rightarrow> install e opts w3)))"

definition bakName :: "env \<Rightarrow> string" where
  "bakName e = ''package.json.setup-backup.'' @ dec (now e) @ ''.json''"

definition no_package_json_text :: string where
  \<open>no_package_json_text =
     ''No package.json found in this directory. Run "npm init" first or run this in a project root.''\<close>

text \<open>From the existence check of the manifest to its rewrite, then the rest.\<close>

definition mainWith :: "env \<Rightarrow> opts \<Rightarrow> world \<Rightarrow> outcome \<times> world" where
  \<open>mainWith e opts w =
     (let pkgPath = path_join (cwd e) ''package.json'' in
      if \<not> existsSync w pkgPath then
        (Exit 1, emit [Err no_package_json_text] w)
      else
        (case readFile e pkgPath w of
           Inl x \<Rightarrow> (Rejected x, w)
         | Inr pkgRaw \<Rightarrow>
             (case json_parse e pkgRaw of
                None \<Rightarrow> (Rejected SyntaxError, w)
              | Some pkg0 \<Rightarrow>
                  (case writeFile e (path_join (cwd e) (bakName e)) pkgRaw w of
                     Inl x \<Rightarrow> (Rejected x, w)
                   | Inr w1 \<Rightarrow>
                       (let w2 = emit [Log (''Backed up package.json -> '' @ bakName e)] w1 in
                        case mergeManifest pkg0 of
                          Inl x \<Rightarrow> (Rejected (Thrown x), w2)
                        | Inr pkg1 \<Rightarrow>
                            (case writeFile e pkgPath (code_points (json_stringify e pkg1 @ ''\<newline>'')) w2 of
                               Inl x \<Rightarrow> (Rejected x, w2)
                             | Inr w3 \<Rightarrow>
                                 generate e opts pkg1
                                   (emit [Log ''Updated package.json (merged fields).''] w3)))))))\<close>

definition main :: "env \<Rightarrow> string list \<Rightarrow> world \<Rightarrow> outcome \<times> world" where
  "main e raw w =
     (case parseArgs raw of
        (printed, Inl code) \<Rightarrow> (Exit code, emit printed w)
      | (printed, Inr opts) \<Rightarrow> mainWith e opts (emit printed w))"

text \<open>A run starts with nothing printed yet.\<close>

definition run :: "env \<Rightarrow> string list \<Rightarrow> (path \<rightharpoonup> node) \<Rightarrow> outcome \<times> world" where
  "run e raw files = main e raw \<lparr>fs = files, trace = []\<rparr>"

section \<open>Auxiliary definitions for the proofs about the merge\<close>

definition fillA :: "(string \<times> json) list \<Rightarrow> string \<times> json \<Rightarrow> (string \<times> json) list" where
  "fillA kvs kd = (if truthy_opt (map_of kvs (fst kd)) then kvs else AList.update (fst kd) (snd kd) kvs)"

fun is_obj :: "json \<Rightarrow> bool" where
  "is_obj (JObj kvs) = True"
| "is_obj (JArr xs ps) = True"
| "is_obj v = False"

fun props :: "json \<Rightarrow> (string \<times> json) list" where
  "props (JObj kvs) = kvs"
| "props (JArr xs ps) = ps"
| "props v = []"

fun with_props :: "json \<Rightarrow> (string \<times> json) list \<Rightarrow> json" where
  "with_props (JObj kvs) ps' = JObj ps'"
| "with_props (JArr xs ps) ps' = JArr xs ps'"
| "with_props v ps' = v"

definition fillV :: "json \<Rightarrow> string \<times> json \<Rightarrow> json" where
  "fillV s kd = with_props s (fillA (props s) kd)"

definition setV :: "json \<Rightarrow> string \<Rightarrow> json \<Rightarrow> json" where
  "setV s k v = with_props s (AList.update k v (props s))"

definition filled :: "json \<Rightarrow> string \<Rightarrow> bool" where
  "filled s k = (is_obj s \<longrightarrow> truthy_opt (map_of (props s) k))"

definition scripts0 :: "json \<Rightarrow> json" where
  "scripts0 p = (case map_of (props p) ''scripts'' of None \<Rightarrow> JObj []
                 | Some s \<Rightarrow> if truthy s then s else JObj [])"

definition merged :: "json \<Rightarrow> json" where
  "merged pkgObj =
     (let p2 = fillV (foldl fillV pkgObj default_simple) (''exports'', default_exports)
      in setV p2 ''scripts'' (foldl fillV (scripts0 p2) default_scripts))"


text \<open>The top-level defaults together: the five simple keys, then \<^verbatim>\<open>exports\<close>.\<close>

definition default_top :: "(string \<times> json) list" where
  "default_top = default_simple @ [(''exports'', default_exports)]"

text \<open>A manifest with an entry point and scripts of its own, one of them empty.\<close>

definition example_manifest :: "(string \<times> json) list" where
  "example_manifest =
     [(''name'', JStr ''demo''),
      (''main'', JStr ''index.js''),
      (''scripts'', JObj [(''build'', JStr ''make''), (''test'', JStr [])])]"

text \<open>A manifest whose entry point and build script are present and empty.\<close>

definition empty_valued_manifest :: "(string \<times> json) list" where
  "empty_valued_manifest =
     [(''main'', JStr []),
      (''scripts'', JObj [(''build'', JStr [])])]"

section \<open>Auxiliary definitions for the proofs about the run\<close>

text \<open>The strings whose characters are all below 128: UTF-8 encodes them as they are.\<close>

definition ascii :: "string \<Rightarrow> bool" where
  "ascii s = list_all (\<lambda>c. of_char c < (128::nat)) s"

text \<open>Every path the program uses is this prefix followed by a fixed name.\<close>

definition pbase :: "path \<Rightarrow> path" where
  "pbase d = (if d = ''/'' then d else d @ ''/'')"

text \<open>One stage took the world \<open>w\<close> to \<open>w'\<close> and printed, wrote or spawned \<open>es\<close>.\<close>

definition delta :: "world \<Rightarrow> world \<Rightarrow> event list \<Rightarrow> bool" where
  "delta w w' es = (trace w' = trace w @ es)"

fun is_write :: "event \<Rightarrow> bool" where
  "is_write (WriteFile p s) = True"
| "is_write ev = False"

fun is_spawn :: "event \<Rightarrow> bool" where
  "is_spawn (Spawn c a) = True"
| "is_spawn ev = False"

text \<open>The events of the stub stage, of the template stage and of the license stage.\<close>

definition stub_events :: "env \<Rightarrow> event set" where
  "stub_events e =
     {WriteFile (pbase (cwd e) @ ''src/index.js'') (utf8_encode (code_points stub)),
      Log ''Wrote src/index.js (stub).'',
      Log ''Skipping src/index.js (exists).''}"

definition template_events :: "env \<Rightarrow> (string \<times> string) list \<Rightarrow> event set" where
  "template_events e fl =
     (\<Union>(fname, content) \<in> set fl.
        {WriteFile (pbase (cwd e) @ fname) (utf8_encode (code_points content)),
         Log (''Wrote '' @ pbase (cwd e) @ fname),
         Log (''Skipping '' @ pbase (cwd e) @ fname @ '' (exists). Use --force to overwrite.'')})"

text \<open>The name the license names, as \<^verbatim>\<open>opts.name || pkg.author || ...\<close> resolves it.\<close>

definition resolvedName :: "env \<Rightarrow> opts \<Rightarrow> json \<Rightarrow> json" where
  "resolvedName e opts pkgObj =
     (case name opts of
        Some (c # cs) \<Rightarrow> JStr (c # cs)
      | _ \<Rightarrow>
          (case jget pkgObj ''author'' of
             Inr (Some a) \<Rightarrow> if truthy a then a else JStr (gitName e)
           | _ \<Rightarrow> JStr (gitName e)))"

text \<open>The paths the stages after the manifest rewrite may create or write.\<close>

definition generated_names :: "string list" where
  "generated_names = ''src'' # ''src/index.js'' # ''LICENSE'' # map fst DEFAULT_FILES"

definition touched :: "env \<Rightarrow> path set" where
  "touched e = insert (cwd e) ((\<lambda>n. pbase (cwd e) @ n) ` set generated_names)"

definition license_events :: "env \<Rightarrow> opts \<Rightarrow> json \<Rightarrow> event set" where
  "license_events e opts pkgObj =
     {ExecSync ''git config --get user.name'', Log ''Wrote LICENSE'',
      Log ''Skipping LICENSE (exists).''} \<union>
     (case interpolate e (resolvedName e opts pkgObj) of
        Inl x \<Rightarrow> {}
      | Inr name_text \<Rightarrow>
          {WriteFile (pbase (cwd e) @ ''LICENSE'')
             (utf8_encode (code_points (licenseText (dec (year e)) name_text)))})"

text \<open>What the stages between the manifest rewrite and the installation may emit.\<close>

definition generated_events :: "env \<Rightarrow> opts \<Rightarrow> json \<Rightarrow> event set" where
  "generated_events e opts pkgObj =
     stub_events e \<union> template_events e DEFAULT_FILES \<union> license_events e opts pkgObj"

text \<open>The manifest, its backup, and what a run has emitted once the manifest is rewritten;
  \<open>raw0\<close> is the content of the manifest before the run.\<close>

definition pkgPath :: "env \<Rightarrow> path" where
  "pkgPath e = pbase (cwd e) @ ''package.json''"

definition bakPath :: "env \<Rightarrow> path" where
  "bakPath e = pbase (cwd e) @ bakName e"

definition head_events :: "env \<Rightarrow> string \<Rightarrow> json \<Rightarrow> event list" where
  "head_events e raw0 pkg1 =
     [WriteFile (bakPath e) (utf8_encode (utf8_decode raw0)),
      Log (''Backed up package.json -> '' @ bakName e),
      WriteFile (pkgPath e) (utf8_encode (code_points (json_stringify e pkg1 @ ''\<newline>''))),
      Log ''Updated package.json (merged fields).'']"

text \<open>From the world \<open>w3\<close> the run either stops on an exception or goes through the
  installation stage.\<close>

definition ends_from :: "env \<Rightarrow> opts \<Rightarrow> world \<Rightarrow> outcome \<Rightarrow> world \<Rightarrow> bool" where
  "ends_from e opts w3 r W = (((\<exists>f. r = Rejected f) \<and> W = w3) \<or> install e opts w3 = (r, W))"

section \<open>An example project and environment\<close>

text \<open>
  A project directory \<^verbatim>\<open>/proj\<close> whose manifest is \<^verbatim>\<open>{}\<close>; nothing fails, git knows a user
  name, and the installer ends with exit code 1.
\<close>

definition example_merged_text :: string where
  \<open>example_merged_text = ''{
  "type": "module",
  "main": "dist/cjs/index.cjs",
  "module": "dist/esm/index.js",
  "types": "dist/types/index.d.ts",
  "files": [
    "dist/"
  ],
  "exports": {
    ".": {
      "import": "./dist/esm/index.js",
      "require": "./dist/cjs/index.cjs",
      "types": "./dist/types/index.d.ts"
    }
  },
  "scripts": {
    "build:js": "rollup -c",
    "build:types": "tsc -p tsconfig.types.json",
    "build": "npm run build:js && npm run build:types",
    "prepublishOnly": "npm run build"
  }
}''\<close>

definition example_env :: env where
  "example_env =
     \<lparr>cwd = ''/proj'', now = 1762167600000, year = 2026,
      json_parse = (\<lambda>s. if s = code_points ''{}'' then Some (JObj []) else None),
      json_stringify = (\<lambda>j. example_merged_text),
      js_to_string = (\<lambda>j. None),
      io_fails = (\<lambda>op p. False),
      git_user_name = Some ''Ada Lovelace\<newline>'',
      installer = (\<lambda>c a. Closed (Some 1))\<rparr>"

definition example_files :: "path \<rightharpoonup> node" where
  "example_files = [''/proj/package.json'' \<mapsto> File ''{}'']"

text \<open>The same project after a first run: every generated file is there.\<close>

definition example_files_full :: "path \<rightharpoonup> node" where
  "example_files_full =
     [''/proj/package.json'' \<mapsto> File ''{}'',
      ''/proj/src/index.js'' \<mapsto> File ''export const x = 1;'',
      ''/proj/rollup.config.js'' \<mapsto> File ''export default {};'',
      ''/proj/tsconfig.types.json'' \<mapsto> File ''{}'',
      ''/proj/.gitignore'' \<mapsto> File ''node_modules'',
      ''/proj/.npmignore'' \<mapsto> File ''src'',
      ''/proj/README.md'' \<mapsto> File ''# Mine'',
      ''/proj/LICENSE'' \<mapsto> File ''All rights reserved.'']"

text \<open>
  The same project with a manifest saved in Latin-1: the byte E9 stands in a string, which no
  UTF-8 sequence allows there. The manifest gives the key twice and \<^verbatim>\<open>JSON.parse\<close> keeps the
  second value, so the parsed object holds no character beyond the strings of the model.
  \<open>latin1_text\<close> is the manifest as \<^verbatim>\<open>fs.readFile(p, 'utf8')\<close> decodes it.
\<close>

definition latin1_manifest :: string where
  \<open>latin1_manifest = ''{"a":"'' @ [CHR 0xE9] @ ''","a":true}''\<close>

definition latin1_text :: "nat list" where
  \<open>latin1_text = code_points ''{"a":"'' @ [0xFFFD] @ code_points ''","a":true}''\<close>

definition latin1_merged_text :: string where
  \<open>latin1_merged_text = ''{
  "a": true,'' @ tl example_merged_text\<close>

definition latin1_env :: env where
  "latin1_env =
     example_env
       \<lparr>json_parse := (\<lambda>s. if s = latin1_text then Some (JObj [(''a'', JBool True)]) else None),
        json_stringify := (\<lambda>j. latin1_merged_text)\<rparr>"

definition latin1_files :: "path \<rightharpoonup> node" where
  "latin1_files = example_files_full(''/proj/package.json'' \<mapsto> File latin1_manifest)"

section \<open>Properties of the merge\<close>

lemma props_with_props [simp]: "is_obj s \<Longrightarrow> props (with_props s ps) = ps"
  by (cases s) simp_all

lemma is_obj_with_props [simp]: "is_obj (with_props s ps) = is_obj s"
  by (cases s) simp_all

lemma with_props_twice [simp]: "with_props (with_props s ps) qs = with_props s qs"
  by (cases s) simp_all

lemma with_props_same [simp]: "with_props s (props s) = s"
  by (cases s) simp_all

lemma truthy_with_props [simp]: "truthy (with_props s ps) = truthy s"
  by (cases s) simp_all

lemma with_props_not_obj: "\<not> is_obj s \<Longrightarrow> with_props s ps = s"
  by (cases s) simp_all

lemma jget_props: "s \<noteq> JNull \<Longrightarrow> jget s k = Inr (map_of (props s) k)"
  by (cases s) simp_all

lemma jset_setV: "s \<noteq> JNull \<Longrightarrow> jset s k v = Inr (setV s k v)"
  by (cases s) (simp_all add: setV_def)

lemma not_null_with_props [simp]: "(with_props s ps = JNull) = (s = JNull)"
  by (cases s) simp_all

lemma fill_fillV: "s \<noteq> JNull \<Longrightarrow> fill s kd = Inr (fillV s kd)"
  by (cases s) (simp_all add: fill_def fillA_def fillV_def)

lemma fillV_not_null [simp]: "(fillV s kd = JNull) = (s = JNull)"
  by (simp add: fillV_def)

lemma is_obj_fillV [simp]: "is_obj (fillV s kd) = is_obj s"
  by (simp add: fillV_def)

lemma truthy_fillV [simp]: "truthy (fillV s kd) = truthy s"
  by (simp add: fillV_def)

lemma map_of_fillA:
  "map_of (fillA kvs kd) k =
     (if k = fst kd \<and> \<not> truthy_opt (map_of kvs k) then Some (snd kd) else map_of kvs k)"
  by (auto simp: fillA_def update_conv')

lemma fillV_noop: "filled s (fst kd) \<Longrightarrow> fillV s kd = s"
  by (cases "is_obj s") (simp_all add: filled_def fillV_def fillA_def with_props_not_obj)

lemma fillV_keeps: "filled s k \<Longrightarrow> filled (fillV s kd) k"
  by (cases "is_obj s") (auto simp: filled_def fillV_def map_of_fillA)

lemma fillV_sets: "truthy (snd kd) \<Longrightarrow> filled (fillV s kd) (fst kd)"
  by (cases "is_obj s") (auto simp: filled_def fillV_def map_of_fillA)

lemma forEach_fill: "s \<noteq> JNull \<Longrightarrow> forEach fill ds s = Inr (foldl fillV s ds)"
  by (induction ds arbitrary: s) (simp_all add: fill_fillV)

lemma foldl_fillV_not_null [simp]: "(foldl fillV s ds = JNull) = (s = JNull)"
  by (induction ds arbitrary: s) simp_all

lemma is_obj_foldl_fillV [simp]: "is_obj (foldl fillV s ds) = is_obj s"
  by (induction ds arbitrary: s) simp_all

lemma truthy_foldl_fillV [simp]: "truthy (foldl fillV s ds) = truthy s"
  by (induction ds arbitrary: s) simp_all

lemma foldl_fillV_keeps: "filled s k \<Longrightarrow> filled (foldl fillV s ds) k"
  by (induction ds arbitrary: s) (simp_all add: fillV_keeps)

lemma foldl_fillV_sets:
  "kd \<in> set ds \<Longrightarrow> truthy (snd kd) \<Longrightarrow> filled (foldl fillV s ds) (fst kd)"
proof (induction ds arbitrary: s)
  case Nil
  then show ?case by simp
next
  case (Cons x ds)
  show ?case
  proof (cases "kd = x")
    case True
    have "filled (fillV s kd) (fst kd)" using Cons.prems(2) by (rule fillV_sets)
    then show ?thesis using True by (simp add: foldl_fillV_keeps)
  next
    case False
    then show ?thesis using Cons by simp
  qed
qed

lemma foldl_fillV_noop: "\<forall>kd \<in> set ds. filled s (fst kd) \<Longrightarrow> foldl fillV s ds = s"
  by (induction ds arbitrary: s) (simp_all add: fillV_noop)

lemma map_of_foldl_fillA:
  "distinct (map fst ds) \<Longrightarrow>
   map_of (foldl fillA kvs ds) k =
     (if truthy_opt (map_of kvs k) then map_of kvs k
      else (case map_of ds k of None \<Rightarrow> map_of kvs k | Some d \<Rightarrow> Some d))"
proof (induction ds arbitrary: kvs)
  case Nil
  then show ?case by simp
next
  case (Cons kd ds)
  have nk: "map_of ds (fst kd) = None"
    using Cons.prems by (simp add: map_of_eq_None_iff)
  show ?case
    using Cons.prems nk
    by (cases kd) (auto simp: Cons.IH map_of_fillA split: option.splits)
qed

lemma props_foldl_fillV:
  "is_obj s \<Longrightarrow> props (foldl fillV s ds) = foldl fillA (props s) ds"
  by (induction ds arbitrary: s) (simp_all add: fillV_def)

lemma is_obj_setV [simp]: "is_obj (setV s k v) = is_obj s"
  by (simp add: setV_def)

lemma setV_not_null [simp]: "(setV s k v = JNull) = (s = JNull)"
  by (simp add: setV_def)

lemma props_setV: "is_obj s \<Longrightarrow> props (setV s k v) = AList.update k v (props s)"
  by (simp add: setV_def)

lemma setV_setV [simp]: "setV (setV s k a) k b = setV s k b"
  by (cases "is_obj s") (simp_all add: setV_def with_props_not_obj)

lemma setV_same: "map_of (props s) k = Some v \<Longrightarrow> setV s k v = s"
  by (simp add: setV_def update_triv)

lemma filled_setV: "k' \<noteq> k \<Longrightarrow> filled (setV s k v) k' = filled s k'"
  by (cases "is_obj s") (simp_all add: filled_def props_setV update_conv')

lemma fillScript_obj:
  "is_obj p \<Longrightarrow> map_of (props p) ''scripts'' = Some s \<Longrightarrow> s \<noteq> JNull \<Longrightarrow>
   fillScript p kv = Inr (setV p ''scripts'' (fillV s kv))"
  by (cases p) (simp_all add: fillScript_def fill_fillV setV_def)

lemma forEach_fillScript:
  "is_obj p \<Longrightarrow> map_of (props p) ''scripts'' = Some s \<Longrightarrow> s \<noteq> JNull \<Longrightarrow>
   forEach fillScript ds p = Inr (setV p ''scripts'' (foldl fillV s ds))"
proof (induction ds arbitrary: p s)
  case Nil
  then show ?case by (simp add: setV_same)
next
  case (Cons kv ds)
  have "forEach fillScript ds (setV p ''scripts'' (fillV s kv)) =
        Inr (setV (setV p ''scripts'' (fillV s kv)) ''scripts'' (foldl fillV (fillV s kv) ds))"
    using Cons.prems by (intro Cons.IH) (simp_all add: props_setV update_conv')
  then show ?case using Cons.prems by (simp add: fillScript_obj)
qed

lemma truthy_scripts0 [simp]: "truthy (scripts0 p)"
  by (simp add: scripts0_def split: option.splits)

lemma scripts0_not_null [simp]: "scripts0 p \<noteq> JNull"
  using truthy_scripts0 [of p] by (auto simp del: truthy_scripts0)

lemma initScripts_obj: "p \<noteq> JNull \<Longrightarrow> initScripts p = Inr (setV p ''scripts'' (scripts0 p))"
  by (simp add: initScripts_def jget_props jset_setV scripts0_def)

lemma mergeManifest_obj: "is_obj pkgObj \<Longrightarrow> mergeManifest pkgObj = Inr (merged pkgObj)"
proof -
  assume o: "is_obj pkgObj"
  then have nn: "pkgObj \<noteq> JNull" by auto
  define p2 where "p2 = fillV (foldl fillV pkgObj default_simple) (''exports'', default_exports)"
  have o2: "is_obj p2" and n2: "p2 \<noteq> JNull" using o nn by (simp_all add: p2_def)
  have "forEach fillScript default_scripts (setV p2 ''scripts'' (scripts0 p2)) =
        Inr (setV (setV p2 ''scripts'' (scripts0 p2)) ''scripts''
               (foldl fillV (scripts0 p2) default_scripts))"
    using o2 by (intro forEach_fillScript) (simp_all add: props_setV update_conv')
  then show ?thesis
    using nn n2
    by (simp add: mergeManifest_def forEach_fill fill_fillV initScripts_obj merged_def Let_def
        p2_def [symmetric])
qed

lemma mergeManifest_not_obj: "\<not> is_obj pkgObj \<Longrightarrow> mergeManifest pkgObj = Inl TypeError"
  by (cases pkgObj)
    (simp_all add: mergeManifest_def default_simple_def fill_def initScripts_def
      default_scripts_def fillScript_def)

lemma foldl_fillV_obj: "foldl fillV (JObj ss) ds = JObj (foldl fillA ss ds)"
  by (induction ds arbitrary: ss) (simp_all add: fillV_def)

lemma default_simple_props:
  "kd \<in> set default_simple \<Longrightarrow>
   truthy (snd kd) \<and> fst kd \<noteq> ''scripts'' \<and> fst kd \<noteq> ''exports''"
  by (auto simp: default_simple_def)

lemma default_scripts_truthy: "kd \<in> set default_scripts \<Longrightarrow> truthy (snd kd)"
  by (auto simp: default_scripts_def)

lemma merged_fixed:
  assumes "\<forall>kd \<in> set default_simple. filled p (fst kd)"
    and "filled p ''exports''"
    and "map_of (props p) ''scripts'' = Some s"
    and "truthy s"
    and "\<forall>kd \<in> set default_scripts. filled s (fst kd)"
  shows "merged p = p"
proof -
  have 1: "foldl fillV p default_simple = p" using assms(1) by (rule foldl_fillV_noop)
  have 2: "fillV p (''exports'', default_exports) = p" using assms(2) by (simp add: fillV_noop)
  have 3: "scripts0 p = s" using assms(3,4) by (simp add: scripts0_def)
  have 4: "foldl fillV s default_scripts = s" using assms(5) by (rule foldl_fillV_noop)
  show ?thesis using assms(3) by (simp add: merged_def 1 2 3 4 setV_same)
qed

lemma merged_scripts:
  "is_obj pkgObj \<Longrightarrow>
   map_of (props (merged pkgObj)) ''scripts'' =
     Some (foldl fillV
             (scripts0 (fillV (foldl fillV pkgObj default_simple) (''exports'', default_exports)))
             default_scripts)"
  by (simp add: merged_def Let_def props_setV update_conv')

lemma merged_filled_simple:
  assumes "kd \<in> set default_simple"
  shows "filled (merged pkgObj) (fst kd)"
proof -
  have t: "truthy (snd kd)" and n: "fst kd \<noteq> ''scripts''"
    using default_simple_props [OF assms] by simp_all
  have "filled (foldl fillV pkgObj default_simple) (fst kd)"
    using assms t by (rule foldl_fillV_sets)
  then have "filled (fillV (foldl fillV pkgObj default_simple) (''exports'', default_exports)) (fst kd)"
    by (rule fillV_keeps)
  then show ?thesis using n by (simp add: merged_def Let_def filled_setV)
qed

lemma merged_filled_exports: "filled (merged pkgObj) ''exports''"
proof -
  have "filled (fillV (foldl fillV pkgObj default_simple) (''exports'', default_exports))
          (fst (''exports'', default_exports))"
    by (rule fillV_sets) (simp add: default_exports_def)
  then show ?thesis by (simp add: merged_def Let_def filled_setV)
qed

lemma merged_merged: "is_obj pkgObj \<Longrightarrow> merged (merged pkgObj) = merged pkgObj"
proof (rule merged_fixed)
  assume o: "is_obj pkgObj"
  show "\<forall>kd \<in> set default_simple. filled (merged pkgObj) (fst kd)"
    by (simp add: merged_filled_simple)
  show "filled (merged pkgObj) ''exports''" by (rule merged_filled_exports)
  show "map_of (props (merged pkgObj)) ''scripts'' =
     Some (foldl fillV
             (scripts0 (fillV (foldl fillV pkgObj default_simple) (''exports'', default_exports)))
             default_scripts)"
    using o by (rule merged_scripts)
  show "truthy (foldl fillV (scripts0 (fillV (foldl fillV pkgObj default_simple)
                 (''exports'', default_exports))) default_scripts)"
    by simp
  show "\<forall>kd \<in> set default_scripts. filled
           (foldl fillV (scripts0 (fillV (foldl fillV pkgObj default_simple)
                 (''exports'', default_exports))) default_scripts) (fst kd)"
    by (simp add: foldl_fillV_sets default_scripts_truthy)
qed

lemma is_obj_merged [simp]: "is_obj (merged pkgObj) = is_obj pkgObj"
  by (simp add: merged_def Let_def)

lemma distinct_default_top: "distinct (map fst default_top)"
  by (simp add: default_top_def default_simple_def)

lemma distinct_default_scripts: "distinct (map fst default_scripts)"
  by (simp add: default_scripts_def)

lemma scripts_not_default_top: "map_of default_top ''scripts'' = None"
  by (simp add: default_top_def default_simple_def)

text \<open>What the merge leaves under each top-level key other than \<^verbatim>\<open>scripts\<close>.\<close>

lemma map_of_merged_top:
  assumes "k \<noteq> ''scripts''"
  shows "map_of (props (merged (JObj kvs))) k =
     (if truthy_opt (map_of kvs k) then map_of kvs k
      else (case map_of default_top k of None \<Rightarrow> map_of kvs k | Some d \<Rightarrow> Some d))"
proof -
  have "fillV (foldl fillV (JObj kvs) default_simple) (''exports'', default_exports) =
        foldl fillV (JObj kvs) default_top"
    by (simp add: default_top_def)
  then have "map_of (props (merged (JObj kvs))) k = map_of (foldl fillA kvs default_top) k"
    using assms by (simp add: merged_def Let_def props_setV update_conv' props_foldl_fillV)
  then show ?thesis by (simp add: map_of_foldl_fillA [OF distinct_default_top])
qed

text \<open>What the merge leaves in a scripts object that was there and truthy.\<close>

lemma merged_scripts_obj:
  assumes "map_of kvs ''scripts'' = Some (JObj ss)"
  shows "map_of (props (merged (JObj kvs))) ''scripts'' =
           Some (JObj (foldl fillA ss default_scripts))"
proof -
  let ?p2 = "fillV (foldl fillV (JObj kvs) default_simple) (''exports'', default_exports)"
  have "?p2 = foldl fillV (JObj kvs) default_top" by (simp add: default_top_def)
  then have "map_of (props ?p2) ''scripts'' = map_of (foldl fillA kvs default_top) ''scripts''"
    by (simp add: props_foldl_fillV)
  also have "\<dots> = Some (JObj ss)"
    using assms by (simp add: map_of_foldl_fillA [OF distinct_default_top])
  finally have "scripts0 ?p2 = JObj ss" by (simp add: scripts0_def)
  moreover have "foldl fillV (JObj ss) default_scripts = JObj (foldl fillA ss default_scripts)"
    by (rule foldl_fillV_obj)
  ultimately show ?thesis by (simp add: merged_scripts)
qed

text \<open>
  C2. For every manifest object the merge succeeds, and merging the merged manifest again
  gives the same manifest: the merge of default fields, exports and scripts is idempotent.
  The second conjunct says so for every value the merge accepts (an array is accepted too).
\<close>

theorem merge_idempotent:
  "(\<exists>p. mergeManifest (JObj kvs) = Inr p) \<and>
   (\<forall>p. mergeManifest pkgObj = Inr p \<longrightarrow> mergeManifest p = Inr p)"
proof (intro conjI allI impI)
  show "\<exists>p. mergeManifest (JObj kvs) = Inr p" by (simp add: mergeManifest_obj)
next
  fix p assume m: "mergeManifest pkgObj = Inr p"
  have o: "is_obj pkgObj"
  proof (rule ccontr)
    assume "\<not> is_obj pkgObj"
    then show False using m by (simp add: mergeManifest_not_obj)
  qed
  then have "p = merged pkgObj" using m by (simp add: mergeManifest_obj)
  then show "mergeManifest p = Inr p" using o by (simp add: mergeManifest_obj merged_merged)
qed

text \<open>The idempotence theorem at the example manifest: its merge, and the merge of that.\<close>

theorem merge_idempotent_witness:
  "mergeManifest (JObj example_manifest) =
     Inr (JObj
       [(''name'', JStr ''demo''), (''main'', JStr ''index.js''),
        (''scripts'',
         JObj
          [(''build'', JStr ''make''), (''test'', JStr []),
           (''build:js'', JStr ''rollup -c''),
           (''build:types'', JStr ''tsc -p tsconfig.types.json''),
           (''prepublishOnly'', JStr ''npm run build'')]),
        (''type'', JStr ''module''),
        (''module'', JStr ''dist/esm/index.js''),
        (''types'', JStr ''dist/types/index.d.ts''),
        (''files'', JArr [JStr ''dist/''] []),
        (''exports'', default_exports)]) \<and>
   mergeManifest (JObj
       [(''name'', JStr ''demo''), (''main'', JStr ''index.js''),
        (''scripts'',
         JObj
          [(''build'', JStr ''make''), (''test'', JStr []),
           (''build:js'', JStr ''rollup -c''),
           (''build:types'', JStr ''tsc -p tsconfig.types.json''),
           (''prepublishOnly'', JStr ''npm run build'')]),
        (''type'', JStr ''module''),
        (''module'', JStr ''dist/esm/index.js''),
        (''types'', JStr ''dist/types/index.d.ts''),
        (''files'', JArr [JStr ''dist/''] []),
        (''exports'', default_exports)]) =
     Inr (JObj
       [(''name'', JStr ''demo''), (''main'', JStr ''index.js''),
        (''scripts'',
         JObj
          [(''build'', JStr ''make''), (''test'', JStr []),
           (''build:js'', JStr ''rollup -c''),
           (''build:types'', JStr ''tsc -p tsconfig.types.json''),
           (''prepublishOnly'', JStr ''npm run build'')]),
        (''type'', JStr ''module''),
        (''module'', JStr ''dist/esm/index.js''),
        (''types'', JStr ''dist/types/index.d.ts''),
        (''files'', JArr [JStr ''dist/''] []),
        (''exports'', default_exports)])"
proof -
  have e: "mergeManifest (JObj example_manifest) =
     Inr (JObj
       [(''name'', JStr ''demo''), (''main'', JStr ''index.js''),
        (''scripts'',
         JObj
          [(''build'', JStr ''make''), (''test'', JStr []),
           (''build:js'', JStr ''rollup -c''),
           (''build:types'', JStr ''tsc -p tsconfig.types.json''),
           (''prepublishOnly'', JStr ''npm run build'')]),
        (''type'', JStr ''module''),
        (''module'', JStr ''dist/esm/index.js''),
        (''types'', JStr ''dist/types/index.d.ts''),
        (''files'', JArr [JStr ''dist/''] []),
        (''exports'', default_exports)])"
    by (simp add: mergeManifest_def example_manifest_def default_simple_def default_scripts_def
        fill_def fillScript_def initScripts_def)
  show ?thesis
    using e merge_idempotent [of example_manifest "JObj example_manifest"] by simp
qed

text \<open>
  C1, as stated, fails: the guard \<^verbatim>\<open>if (!pkg[key])\<close> tests the value, not the presence
  of the key. A manifest with \<^verbatim>\<open>"main": ""\<close> and a script \<^verbatim>\<open>"build": ""\<close> has both
  replaced by the defaults.
\<close>

theorem merge_replaces_empty_values:
  "map_of empty_valued_manifest ''main'' = Some (JStr []) \<and>
   mergeManifest (JObj empty_valued_manifest) =
     Inr (JObj
       [(''main'', JStr ''dist/cjs/index.cjs''),
        (''scripts'',
         JObj
          [(''build'', JStr ''npm run build:js && npm run build:types''),
           (''build:js'', JStr ''rollup -c''),
           (''build:types'', JStr ''tsc -p tsconfig.types.json''),
           (''prepublishOnly'', JStr ''npm run build'')]),
        (''type'', JStr ''module''),
        (''module'', JStr ''dist/esm/index.js''),
        (''types'', JStr ''dist/types/index.d.ts''),
        (''files'', JArr [JStr ''dist/''] []),
        (''exports'', default_exports)])"
  by (simp add: mergeManifest_def empty_valued_manifest_def default_simple_def
      default_scripts_def fill_def fillScript_def initScripts_def)

text \<open>
  C1, amended. For every manifest object the merge succeeds and
  \<^item> every top-level key other than \<^verbatim>\<open>scripts\<close> whose value is truthy keeps that value;
  \<^item> a top-level key other than \<^verbatim>\<open>scripts\<close> whose value differs after the merge was absent
    or falsy before and now holds its default;
  \<^item> when \<^verbatim>\<open>scripts\<close> is an object, it stays an object, every entry of it with a truthy
    value keeps that value, and an entry that differs after the merge was absent or falsy
    before and now holds the default script.
\<close>

theorem merge_keeps_truthy_values:
  "\<exists>kvs'. mergeManifest (JObj kvs) = Inr (JObj kvs') \<and>
     (\<forall>k v. k \<noteq> ''scripts'' \<and> map_of kvs k = Some v \<and> truthy v \<longrightarrow> map_of kvs' k = Some v) \<and>
     (\<forall>k. k \<noteq> ''scripts'' \<and> map_of kvs' k \<noteq> map_of kvs k \<longrightarrow>
          \<not> truthy_opt (map_of kvs k) \<and> map_of kvs' k = map_of default_top k) \<and>
     (\<forall>ss. map_of kvs ''scripts'' = Some (JObj ss) \<longrightarrow>
        (\<exists>ss'. map_of kvs' ''scripts'' = Some (JObj ss') \<and>
           (\<forall>n v. map_of ss n = Some v \<and> truthy v \<longrightarrow> map_of ss' n = Some v) \<and>
           (\<forall>n. map_of ss' n \<noteq> map_of ss n \<longrightarrow>
                \<not> truthy_opt (map_of ss n) \<and> map_of ss' n = map_of default_scripts n)))"
proof -
  obtain kvs' where k': "merged (JObj kvs) = JObj kvs'"
    by (cases "merged (JObj kvs)")
       (simp_all add: merged_def Let_def setV_def fillV_def foldl_fillV_obj)
  then have p: "props (merged (JObj kvs)) = kvs'" by simp
  have top: "map_of kvs' k =
     (if truthy_opt (map_of kvs k) then map_of kvs k
      else (case map_of default_top k of None \<Rightarrow> map_of kvs k | Some d \<Rightarrow> Some d))"
    if "k \<noteq> ''scripts''" for k
    using map_of_merged_top [OF that, of kvs] by (simp add: p)
  have scr: "map_of kvs' ''scripts'' = Some (JObj (foldl fillA ss default_scripts))"
    if "map_of kvs ''scripts'' = Some (JObj ss)" for ss
    using merged_scripts_obj [OF that] by (simp add: p)
  have 1: "mergeManifest (JObj kvs) = Inr (JObj kvs')"
    by (simp add: mergeManifest_obj k')
  have 2: "\<forall>k v. k \<noteq> ''scripts'' \<and> map_of kvs k = Some v \<and> truthy v \<longrightarrow> map_of kvs' k = Some v"
    by (simp add: top)
  have 3: "\<forall>k. k \<noteq> ''scripts'' \<and> map_of kvs' k \<noteq> map_of kvs k \<longrightarrow>
          \<not> truthy_opt (map_of kvs k) \<and> map_of kvs' k = map_of default_top k"
  proof (intro allI impI)
    fix k assume a: "k \<noteq> ''scripts'' \<and> map_of kvs' k \<noteq> map_of kvs k"
    then have "map_of kvs' k =
       (if truthy_opt (map_of kvs k) then map_of kvs k
        else (case map_of default_top k of None \<Rightarrow> map_of kvs k | Some d \<Rightarrow> Some d))"
      by (simp add: top)
    then show "\<not> truthy_opt (map_of kvs k) \<and> map_of kvs' k = map_of default_top k"
      using a by (auto split: option.splits if_splits)
  qed
  have 4: "\<forall>ss. map_of kvs ''scripts'' = Some (JObj ss) \<longrightarrow>
        (\<exists>ss'. map_of kvs' ''scripts'' = Some (JObj ss') \<and>
           (\<forall>n v. map_of ss n = Some v \<and> truthy v \<longrightarrow> map_of ss' n = Some v) \<and>
           (\<forall>n. map_of ss' n \<noteq> map_of ss n \<longrightarrow>
                \<not> truthy_opt (map_of ss n) \<and> map_of ss' n = map_of default_scripts n))"
  proof (intro allI impI)
    fix ss assume s: "map_of kvs ''scripts'' = Some (JObj ss)"
    have m: "map_of (foldl fillA ss default_scripts) n =
       (if truthy_opt (map_of ss n) then map_of ss n
        else (case map_of default_scripts n of None \<Rightarrow> map_of ss n | Some d \<Rightarrow> Some d))" for n
      by (rule map_of_foldl_fillA [OF distinct_default_scripts])
    show "\<exists>ss'. map_of kvs' ''scripts'' = Some (JObj ss') \<and>
           (\<forall>n v. map_of ss n = Some v \<and> truthy v \<longrightarrow> map_of ss' n = Some v) \<and>
           (\<forall>n. map_of ss' n \<noteq> map_of ss n \<longrightarrow>
                \<not> truthy_opt (map_of ss n) \<and> map_of ss' n = map_of default_scripts n)"
    proof (intro exI conjI)
      show "map_of kvs' ''scripts'' = Some (JObj (foldl fillA ss default_scripts))"
        using s by (rule scr)
      show "\<forall>n v. map_of ss n = Some v \<and> truthy v \<longrightarrow>
              map_of (foldl fillA ss default_scripts) n = Some v"
        by (simp add: m)
      show "\<forall>n. map_of (foldl fillA ss default_scripts) n \<noteq> map_of ss n \<longrightarrow>
                \<not> truthy_opt (map_of ss n) \<and>
                map_of (foldl fillA ss default_scripts) n = map_of default_scripts n"
        by (auto simp: m split: option.splits if_splits)
    qed
  qed
  show ?thesis using 1 2 3 4 by blast
qed

text \<open>The amended C1 at the example manifest: its entry point and its build script stay.\<close>

theorem merge_keeps_truthy_values_witness:
  "map_of example_manifest ''main'' = Some (JStr ''index.js'') \<and> truthy (JStr ''index.js'') \<and>
   map_of example_manifest ''scripts'' = Some (JObj [(''build'', JStr ''make''), (''test'', JStr [])]) \<and>
   (\<exists>kvs' ss'. mergeManifest (JObj example_manifest) = Inr (JObj kvs') \<and>
      map_of kvs' ''main'' = Some (JStr ''index.js'') \<and>
      map_of kvs' ''scripts'' = Some (JObj ss') \<and>
      map_of ss' ''build'' = Some (JStr ''make''))"
proof -
  have a: "''main'' \<noteq> ''scripts'' \<and> map_of example_manifest ''main'' = Some (JStr ''index.js'') \<and>
           truthy (JStr ''index.js'')"
    and c: "map_of example_manifest ''scripts'' =
              Some (JObj [(''build'', JStr ''make''), (''test'', JStr [])])"
    and d: "map_of [(''build'', JStr ''make''), (''test'', JStr [])] ''build'' = Some (JStr ''make'') \<and>
            truthy (JStr ''make'')"
    by (simp_all add: example_manifest_def)
  from merge_keeps_truthy_values [of example_manifest]
  obtain kvs' where all: "mergeManifest (JObj example_manifest) = Inr (JObj kvs') \<and>
     (\<forall>k v. k \<noteq> ''scripts'' \<and> map_of example_manifest k = Some v \<and> truthy v \<longrightarrow>
        map_of kvs' k = Some v) \<and>
     (\<forall>k. k \<noteq> ''scripts'' \<and> map_of kvs' k \<noteq> map_of example_manifest k \<longrightarrow>
          \<not> truthy_opt (map_of example_manifest k) \<and> map_of kvs' k = map_of default_top k) \<and>
     (\<forall>ss. map_of example_manifest ''scripts'' = Some (JObj ss) \<longrightarrow>
        (\<exists>ss'. map_of kvs' ''scripts'' = Some (JObj ss') \<and>
           (\<forall>n v. map_of ss n = Some v \<and> truthy v \<longrightarrow> map_of ss' n = Some v) \<and>
           (\<forall>n. map_of ss' n \<noteq> map_of ss n \<longrightarrow>
                \<not> truthy_opt (map_of ss n) \<and> map_of ss' n = map_of default_scripts n)))" ..
  from all have m: "mergeManifest (JObj example_manifest) = Inr (JObj kvs')" by (rule conjunct1)
  from all have k: "\<forall>k v. k \<noteq> ''scripts'' \<and> map_of example_manifest k = Some v \<and> truthy v \<longrightarrow>
        map_of kvs' k = Some v"
    by (rule conjunct1 [OF conjunct2])
  from all have "\<forall>ss. map_of example_manifest ''scripts'' = Some (JObj ss) \<longrightarrow>
        (\<exists>ss'. map_of kvs' ''scripts'' = Some (JObj ss') \<and>
           (\<forall>n v. map_of ss n = Some v \<and> truthy v \<longrightarrow> map_of ss' n = Some v) \<and>
           (\<forall>n. map_of ss' n \<noteq> map_of ss n \<longrightarrow>
                \<not> truthy_opt (map_of ss n) \<and> map_of ss' n = map_of default_scripts n))"
    by (rule conjunct2 [OF conjunct2 [OF conjunct2]])
  from this [rule_format, OF c]
  obtain ss' where s: "map_of kvs' ''scripts'' = Some (JObj ss') \<and>
           (\<forall>n v. map_of [(''build'', JStr ''make''), (''test'', JStr [])] n = Some v \<and> truthy v \<longrightarrow>
              map_of ss' n = Some v) \<and>
           (\<forall>n. map_of ss' n \<noteq> map_of [(''build'', JStr ''make''), (''test'', JStr [])] n \<longrightarrow>
                \<not> truthy_opt (map_of [(''build'', JStr ''make''), (''test'', JStr [])] n) \<and>
                map_of ss' n = map_of default_scripts n)" ..
  from s have s1: "map_of kvs' ''scripts'' = Some (JObj ss')" by (rule conjunct1)
  from s have s2: "\<forall>n v. map_of [(''build'', JStr ''make''), (''test'', JStr [])] n = Some v \<and> truthy v \<longrightarrow>
              map_of ss' n = Some v"
    by (rule conjunct1 [OF conjunct2])
  have r1: "map_of kvs' ''main'' = Some (JStr ''index.js'')" by (rule k [rule_format, OF a])
  have r2: "map_of ss' ''build'' = Some (JStr ''make'')" by (rule s2 [rule_format, OF d])
  have "\<exists>kvs' ss'. mergeManifest (JObj example_manifest) = Inr (JObj kvs') \<and>
      map_of kvs' ''main'' = Some (JStr ''index.js'') \<and>
      map_of kvs' ''scripts'' = Some (JObj ss') \<and>
      map_of ss' ''build'' = Some (JStr ''make'')"
    by (intro exI conjI) (rule m r1 s1 r2)+
  then show ?thesis using a c by (intro conjI) (rule conjunct1 [OF conjunct2 [OF a]] conjunct2 [OF conjunct2 [OF a]] c, assumption?)+
qed


section \<open>Properties of the argument parser\<close>

text \<open>The loop body, branch by branch.\<close>

lemma parseLoop_help:
  "a = ''-h'' \<or> a = ''--help'' \<Longrightarrow> parseLoop out (a # rest) = (usage, Inl 0)"
  by simp

lemma parseLoop_noInstall:
  "parseLoop out (''--no-install'' # rest) = parseLoop (out\<lparr>noInstall := True\<rparr>) rest"
  by simp

lemma parseLoop_force:
  "parseLoop out (''--force'' # rest) = parseLoop (out\<lparr>force := True\<rparr>) rest"
  by simp

lemma parseLoop_name:
  "parseLoop out (''--name'' # rest) =
     (case rest of
        [] \<Rightarrow> parseLoop out rest
      | v # rest' \<Rightarrow>
          if v \<noteq> [] then parseLoop (out\<lparr>name := Some v\<rparr>) rest' else parseLoop out rest)"
  by simp

lemma parseLoop_pkg:
  "a = ''--pkg'' \<or> a = ''-p'' \<Longrightarrow>
   parseLoop out (a # rest) =
     (case rest of
        [] \<Rightarrow> (Err ''--pkg requires a value (npm, pnpm, yarn)'' # usage, Inl 1)
      | v # rest' \<Rightarrow>
          if v \<noteq> [] then
            (if toLowerCase v \<notin> set [''npm'', ''pnpm'', ''yarn'']
             then (Err (''Unsupported package manager: '' @ v) # usage, Inl 1)
             else parseLoop (out\<lparr>pkg := toLowerCase v\<rparr>) rest')
          else (Err ''--pkg requires a value (npm, pnpm, yarn)'' # usage, Inl 1))"
  by (erule disjE) (simp_all add: Let_def split: list.splits)

lemma parseLoop_other:
  "a \<noteq> ''-h'' \<Longrightarrow> a \<noteq> ''--help'' \<Longrightarrow> a \<noteq> ''--no-install'' \<Longrightarrow> a \<noteq> ''--force'' \<Longrightarrow>
   a \<noteq> ''--name'' \<Longrightarrow> a \<noteq> ''--pkg'' \<Longrightarrow> a \<noteq> ''-p'' \<Longrightarrow>
   parseLoop out (a # rest) = parseLoop out rest"
  by simp


declare parseLoop.simps(2) [simp del]

lemma arg_cases:
  obtains (is_help) "a = ''-h'' \<or> a = ''--help''"
  | (is_noInstall) "a = ''--no-install''"
  | (is_force) "a = ''--force''"
  | (is_name) "a = ''--name''"
  | (is_pkg) "a = ''--pkg'' \<or> a = ''-p''"
  | (is_other) "a \<noteq> ''-h''" "a \<noteq> ''--help''" "a \<noteq> ''--no-install''" "a \<noteq> ''--force''"
      "a \<noteq> ''--name''" "a \<noteq> ''--pkg''" "a \<noteq> ''-p''"
  by blast

lemma parseLoop_cases [case_names Nil Help NoInstall Force NameLast NameEmpty NameValue Pkg Other]:
  assumes "\<And>out. P out []"
    and "\<And>out a rest. a = ''-h'' \<or> a = ''--help'' \<Longrightarrow> P out (a # rest)"
    and "\<And>out rest. P (out\<lparr>noInstall := True\<rparr>) rest \<Longrightarrow> P out (''--no-install'' # rest)"
    and "\<And>out rest. P (out\<lparr>force := True\<rparr>) rest \<Longrightarrow> P out (''--force'' # rest)"
    and "\<And>out. P out [''--name'']"
    and "\<And>out rest. P out ([] # rest) \<Longrightarrow> P out (''--name'' # [] # rest)"
    and "\<And>out v rest. v \<noteq> [] \<Longrightarrow> P (out\<lparr>name := Some v\<rparr>) rest \<Longrightarrow>
           P out (''--name'' # v # rest)"
    and "\<And>out a rest. a = ''--pkg'' \<or> a = ''-p'' \<Longrightarrow>
           (\<And>v rest'. rest = v # rest' \<Longrightarrow> P (out\<lparr>pkg := toLowerCase v\<rparr>) rest') \<Longrightarrow>
           P out (a # rest)"
    and "\<And>out a rest. a \<noteq> ''-h'' \<Longrightarrow> a \<noteq> ''--help'' \<Longrightarrow> a \<noteq> ''--no-install'' \<Longrightarrow>
           a \<noteq> ''--force'' \<Longrightarrow> a \<noteq> ''--name'' \<Longrightarrow> a \<noteq> ''--pkg'' \<Longrightarrow> a \<noteq> ''-p'' \<Longrightarrow>
           P out rest \<Longrightarrow> P out (a # rest)"
  shows "P out raw"
proof (induction raw arbitrary: out rule: length_induct)
  case (1 raw)
  then have IH: "\<And>ys o'. length ys < length raw \<Longrightarrow> P o' ys" by blast
  show ?case
  proof (cases raw)
    case Nil
    then show ?thesis using assms(1) by simp
  next
    case (Cons a rest)
    note c1 = Cons
    show ?thesis
    proof (cases a rule: arg_cases)
      case is_help
      then show ?thesis using assms(2) c1 by simp
    next
      case is_noInstall
      then show ?thesis using assms(3) IH c1 by simp
    next
      case is_force
      then show ?thesis using assms(4) IH c1 by simp
    next
      case is_name
      show ?thesis
      proof (cases rest)
        case Nil
        then show ?thesis using assms(5) is_name c1 by simp
      next
        case (Cons v rest')
        show ?thesis
        proof (cases "v = []")
          case True
          have "P out ([] # rest')" using c1 Cons by (intro IH) simp
          then show ?thesis using assms(6) is_name c1 Cons True by simp
        next
          case False
          have "P (out\<lparr>name := Some v\<rparr>) rest'" using c1 Cons by (intro IH) simp
          then show ?thesis using assms(7) [OF False] is_name c1 Cons by simp
        qed
      qed
    next
      case is_pkg
      have "P out (a # rest)"
      proof (rule assms(8) [OF is_pkg])
        fix v rest' assume "rest = v # rest'"
        then show "P (out\<lparr>pkg := toLowerCase v\<rparr>) rest'" using c1 by (intro IH) simp
      qed
      then show ?thesis using c1 by simp
    next
      case is_other
      have "P out rest" using c1 by (intro IH) simp
      then show ?thesis using assms(9) is_other c1 by simp
    qed
  qed
qed

lemma parseLoop_keeps_pkg:
  "''--pkg'' \<notin> set raw \<Longrightarrow> ''-p'' \<notin> set raw \<Longrightarrow> snd (parseLoop out raw) = Inr out' \<Longrightarrow>
   pkg out' = pkg out"
proof (induction out raw rule: parseLoop_cases)
  case (Pkg out a rest)
  then show ?case by auto
qed (simp_all add: parseLoop_help parseLoop_noInstall parseLoop_force parseLoop_name
      parseLoop_other)

lemma parseLoop_returns:
  "''--pkg'' \<notin> set raw \<Longrightarrow> ''-p'' \<notin> set raw \<Longrightarrow> ''-h'' \<notin> set raw \<Longrightarrow> ''--help'' \<notin> set raw \<Longrightarrow>
   \<exists>out'. parseLoop out raw = ([], Inr out')"
proof (induction out raw rule: parseLoop_cases)
  case (Pkg out a rest)
  then show ?case by auto
next
  case (Help out a rest)
  then show ?case by auto
qed (simp_all add: parseLoop_noInstall parseLoop_force parseLoop_name parseLoop_other)

lemma parseLoop_printed:
  "snd (parseLoop out raw) = Inr out' \<Longrightarrow> fst (parseLoop out raw) = []"
proof (induction out raw rule: parseLoop_cases)
  case (Pkg out a rest)
  then show ?case by (cases rest) (auto simp: parseLoop_pkg split: if_splits)
qed (simp_all add: parseLoop_help parseLoop_noInstall parseLoop_force parseLoop_name
      parseLoop_other)

lemma toLowerCase_Nil [simp]: "toLowerCase [] = []"
  by (simp add: toLowerCase_def)

lemma parseLoop_pkg_step:
  assumes "a = ''--pkg'' \<or> a = ''-p''"
    and "toLowerCase v \<in> set [''npm'', ''pnpm'', ''yarn'']"
  shows "parseLoop out (a # v # rest) = parseLoop (out\<lparr>pkg := toLowerCase v\<rparr>) rest"
proof -
  have "v \<noteq> []" using assms(2) by auto
  then show ?thesis using assms by (simp add: parseLoop_pkg)
qed

text \<open>
  C9, as stated, fails: a non-empty argument list without \<^verbatim>\<open>--pkg\<close>/\<^verbatim>\<open>-p\<close> may hold the help
  flag, and then the parser prints the usage and exits with code 0 instead of returning a
  record.
\<close>

theorem parseArgs_help_returns_no_record:
  "[''--help''] \<noteq> [] \<and> ''--pkg'' \<notin> set [''--help''] \<and> ''-p'' \<notin> set [''--help''] \<and>
   parseArgs [''--help''] = (usage, Inl 0)"
  by (simp add: parseArgs_def parseLoop_help)

text \<open>
  C9, amended. For every non-empty argument list that contains no \<^verbatim>\<open>--pkg\<close>/\<^verbatim>\<open>-p\<close>: whenever
  the parser returns a record, its package manager is \<^verbatim>\<open>npm\<close>; and when the list contains no
  \<^verbatim>\<open>-h\<close>/\<^verbatim>\<open>--help\<close> either, the parser does return a record (with nothing printed), whose
  package manager is \<^verbatim>\<open>npm\<close>.
\<close>

theorem parseArgs_default_npm:
  assumes "raw \<noteq> []" and "''--pkg'' \<notin> set raw" and "''-p'' \<notin> set raw"
  shows "(\<forall>out. snd (parseArgs raw) = Inr out \<longrightarrow> pkg out = ''npm'') \<and>
         (''-h'' \<notin> set raw \<and> ''--help'' \<notin> set raw \<longrightarrow>
            (\<exists>out. parseArgs raw = ([], Inr out) \<and> pkg out = ''npm''))"
proof (intro conjI allI impI)
  fix out assume "snd (parseArgs raw) = Inr out"
  then have "snd (parseLoop initial_opts raw) = Inr out" using assms(1) by (simp add: parseArgs_def)
  then have "pkg out = pkg initial_opts" using assms(2,3) by (intro parseLoop_keeps_pkg)
  then show "pkg out = ''npm''" by (simp add: initial_opts_def)
next
  assume h: "''-h'' \<notin> set raw \<and> ''--help'' \<notin> set raw"
  then obtain out where o: "parseLoop initial_opts raw = ([], Inr out)"
    using parseLoop_returns [OF assms(2,3), of initial_opts] by blast
  then have "snd (parseLoop initial_opts raw) = Inr out" by simp
  then have "pkg out = pkg initial_opts" using assms(2,3) by (intro parseLoop_keeps_pkg)
  then show "\<exists>out. parseArgs raw = ([], Inr out) \<and> pkg out = ''npm''"
    using o assms(1) by (simp add: parseArgs_def initial_opts_def)
qed

text \<open>The amended C9 at a run with only \<^verbatim>\<open>--force\<close>.\<close>

theorem parseArgs_default_npm_witness:
  "[''--force''] \<noteq> [] \<and> ''--pkg'' \<notin> set [''--force''] \<and> ''-p'' \<notin> set [''--force''] \<and>
   ''-h'' \<notin> set [''--force''] \<and> ''--help'' \<notin> set [''--force''] \<and>
   parseArgs [''--force''] =
     ([], Inr \<lparr>noInstall = False, force = True, name = None, pkg = ''npm''\<rparr>)"
proof -
  have a: "[''--force''] \<noteq> []" and b: "''--pkg'' \<notin> set [''--force'']"
    and c: "''-p'' \<notin> set [''--force'']"
    and d: "''-h'' \<notin> set [''--force''] \<and> ''--help'' \<notin> set [''--force'']"
    by simp_all
  have e: "parseArgs [''--force''] =
     ([], Inr \<lparr>noInstall = False, force = True, name = None, pkg = ''npm''\<rparr>)"
    by (simp add: parseArgs_def parseLoop_force initial_opts_def)
  from parseArgs_default_npm [OF a b c] d e
  show ?thesis using a b c by simp
qed

text \<open>
  C10. The value given to \<^verbatim>\<open>--pkg\<close>/\<^verbatim>\<open>-p\<close> is matched through its lower-case form: when that
  is one of \<^verbatim>\<open>npm\<close>, \<^verbatim>\<open>pnpm\<close>, \<^verbatim>\<open>yarn\<close>, the loop stores the lowered value and goes on with
  the rest of the arguments instead of exiting with code 1; a run with just the flag and
  the value returns the record with that package manager.
\<close>

theorem parseArgs_pkg_case_insensitive:
  assumes "a = ''--pkg'' \<or> a = ''-p''"
    and "toLowerCase v \<in> set [''npm'', ''pnpm'', ''yarn'']"
  shows "parseLoop out (a # v # rest) = parseLoop (out\<lparr>pkg := toLowerCase v\<rparr>) rest \<and>
         parseArgs [a, v] = ([], Inr (initial_opts\<lparr>pkg := toLowerCase v\<rparr>))"
  using assms by (simp add: parseLoop_pkg_step parseArgs_def)

text \<open>C10 at \<^verbatim>\<open>--pkg Yarn\<close> followed by \<^verbatim>\<open>--force\<close>, and at \<^verbatim>\<open>--pkg Yarn\<close> alone.\<close>

theorem parseArgs_pkg_case_insensitive_witness:
  "toLowerCase ''Yarn'' = ''yarn'' \<and>
   parseLoop initial_opts [''--pkg'', ''Yarn'', ''--force''] =
     ([], Inr \<lparr>noInstall = False, force = True, name = None, pkg = ''yarn''\<rparr>) \<and>
   parseArgs [''--pkg'', ''Yarn''] =
     ([], Inr \<lparr>noInstall = False, force = False, name = None, pkg = ''yarn''\<rparr>)"
proof -
  have l: "toLowerCase ''Yarn'' = ''yarn''" by code_simp
  have a: "''--pkg'' = ''--pkg'' \<or> ''--pkg'' = ''-p''" by simp
  have b: "toLowerCase ''Yarn'' \<in> set [''npm'', ''pnpm'', ''yarn'']" by (simp add: l)
  from parseArgs_pkg_case_insensitive [OF a b, of initial_opts "[''--force'']"]
  show ?thesis by (simp add: l initial_opts_def parseLoop_force)
qed

section \<open>The UTF-8 encoder and decoder\<close>

lemma low_digit:
  fixes y :: nat
  assumes "y div 64 = d" "y < 64 * d + b"
  shows "y mod 64 < b"
proof -
  have "y = y div 64 * 64 + y mod 64" by simp
  then have "y = d * 64 + y mod 64" using assms(1) by simp
  then show ?thesis using assms(2) by linarith
qed

lemma high_digit:
  fixes y :: nat
  assumes "y div 64 = d" "64 * d + b \<le> y"
  shows "b \<le> y mod 64"
proof -
  have "y = y div 64 * 64 + y mod 64" by simp
  then have "y = d * 64 + y mod 64" using assms(1) by simp
  then show ?thesis using assms(2) by linarith
qed

lemma div_4096: "(cp::nat) div 64 div 64 = cp div 4096"
  by (simp add: div_mult2_eq [symmetric])

lemma div_262144: "(cp::nat) div 4096 div 64 = cp div 262144"
  by (simp add: div_mult2_eq [symmetric])

lemma second_byte_E0: "0x800 \<le> (cp::nat) \<Longrightarrow> cp div 4096 = 0 \<Longrightarrow> 32 \<le> cp div 64 mod 64"
  by (rule high_digit [of _ 0]) (simp_all add: div_4096)

lemma second_byte_ED: "(cp::nat) < 0xD800 \<Longrightarrow> cp div 4096 = 13 \<Longrightarrow> cp div 64 mod 64 < 32"
  by (rule low_digit [of _ 13]) (simp_all add: div_4096)

lemma three_bytes_value: "((cp::nat) div 4096 * 64 + cp div 64 mod 64) * 64 + cp mod 64 = cp"
proof -
  have "cp div 4096 * 64 + cp div 64 mod 64 = cp div 64"
    using div_mult_mod_eq [of "cp div 64" 64] by (simp add: div_4096)
  then show ?thesis by simp
qed

lemma second_byte_F0: "0x10000 \<le> (cp::nat) \<Longrightarrow> cp div 262144 = 0 \<Longrightarrow> 16 \<le> cp div 4096 mod 64"
  by (rule high_digit [of _ 0]) (simp_all add: div_262144)

lemma second_byte_F4: "(cp::nat) < 0x110000 \<Longrightarrow> cp div 262144 = 4 \<Longrightarrow> cp div 4096 mod 64 < 16"
  by (rule low_digit [of _ 4]) (simp_all add: div_262144)

lemma four_bytes_value: "(((cp::nat) div 262144 * 64 + cp div 4096 mod 64) * 64 + cp div 64 mod 64) * 64 + cp mod 64 = cp"
proof -
  have "cp div 262144 * 64 + cp div 4096 mod 64 = cp div 4096"
    using div_mult_mod_eq [of "cp div 4096" 64] by (simp add: div_262144)
  then have "(cp div 262144 * 64 + cp div 4096 mod 64) * 64 + cp div 64 mod 64 = cp div 64"
    using div_mult_mod_eq [of "cp div 64" 64] by (simp add: div_4096)
  then show ?thesis by simp
qed

lemma dec1: "b < 0x80 \<Longrightarrow>
  utf8_dec (0, 0, 0x80, 0xBF) (char_of b # rest) = b # utf8_dec (0, 0, 0x80, 0xBF) rest"
  by simp

lemma dec2:
  assumes "0xC2 \<le> b1" "b1 \<le> 0xDF" "0x80 \<le> second_byte_F0" "second_byte_F0 \<le> 0xBF"
  shows "utf8_dec (0, 0, 0x80, 0xBF) (char_of b1 # char_of second_byte_F0 # rest) =
         ((b1 - 0xC0) * 64 + (second_byte_F0 - 0x80)) # utf8_dec (0, 0, 0x80, 0xBF) rest"
  using assms by simp

lemma dec3:
  assumes "0xE0 \<le> b1" "b1 \<le> 0xEF" "0x80 \<le> second_byte_F0" "second_byte_F0 \<le> 0xBF" "0x80 \<le> second_byte_F4" "second_byte_F4 \<le> 0xBF"
    and "b1 = 0xE0 \<Longrightarrow> 0xA0 \<le> second_byte_F0" and "b1 = 0xED \<Longrightarrow> second_byte_F0 \<le> 0x9F"
  shows "utf8_dec (0, 0, 0x80, 0xBF) (char_of b1 # char_of second_byte_F0 # char_of second_byte_F4 # rest) =
         (((b1 - 0xE0) * 64 + (second_byte_F0 - 0x80)) * 64 + (second_byte_F4 - 0x80)) # utf8_dec (0, 0, 0x80, 0xBF) rest"
  using assms by simp

lemma dec4:
  assumes "0xF0 \<le> b1" "b1 \<le> 0xF4" "0x80 \<le> second_byte_F0" "second_byte_F0 \<le> 0xBF" "0x80 \<le> second_byte_F4" "second_byte_F4 \<le> 0xBF"
    "0x80 \<le> four_bytes_value" "four_bytes_value \<le> 0xBF"
    and "b1 = 0xF0 \<Longrightarrow> 0x90 \<le> second_byte_F0" and "b1 = 0xF4 \<Longrightarrow> second_byte_F0 \<le> 0x8F"
  shows "utf8_dec (0, 0, 0x80, 0xBF) (char_of b1 # char_of second_byte_F0 # char_of second_byte_F4 # char_of four_bytes_value # rest) =
         ((((b1 - 0xF0) * 64 + (second_byte_F0 - 0x80)) * 64 + (second_byte_F4 - 0x80)) * 64 + (four_bytes_value - 0x80)) #
         utf8_dec (0, 0, 0x80, 0xBF) rest"
  using assms by simp

lemma dec_step:
  assumes "scalar cp"
  shows "utf8_dec (0, 0, 0x80, 0xBF) (map char_of (utf8_bytes cp) @ rest) =
         cp # utf8_dec (0, 0, 0x80, 0xBF) rest"
proof -
  consider "cp < 0x80" | "0x80 \<le> cp" "cp < 0x800" | "0x800 \<le> cp" "cp < 0x10000" | "0x10000 \<le> cp"
    by linarith
  then show ?thesis
  proof cases
    case 1
    then show ?thesis by (simp add: utf8_bytes_def)
  next
    case 2
    then have "cp div 64 < 32" "2 \<le> cp div 64" by simp_all
    then show ?thesis using 2 by (simp add: utf8_bytes_def Let_def)
  next
    case 3
    have s: "cp < 0xD800 \<or> 0xE000 \<le> cp" using assms by (auto simp: scalar_def)
    have b: "utf8_bytes cp = [0xE0 + cp div 4096, 0x80 + cp div 64 mod 64, 0x80 + cp mod 64]"
      using 3 assms by (simp add: utf8_bytes_def)
    have d: "cp div 4096 < 16" using 3 by simp
    have e0: "0xE0 + cp div 4096 = 0xE0 \<Longrightarrow> 0xA0 \<le> 0x80 + cp div 64 mod 64"
      using 3 second_byte_E0 [of cp] by simp
    have ed: "0xE0 + cp div 4096 = 0xED \<Longrightarrow> 0x80 + cp div 64 mod 64 \<le> 0x9F"
    proof -
      assume "0xE0 + cp div 4096 = 0xED"
      then have h: "cp div 4096 = 13" by simp
      then have "cp < 0xE000" by simp
      then have "cp < 0xD800" using s by simp
      then have "cp div 64 mod 64 < 32" using h by (rule second_byte_ED)
      then show ?thesis by simp
    qed
    have "utf8_dec (0, 0, 0x80, 0xBF)
            (char_of (0xE0 + cp div 4096) # char_of (0x80 + cp div 64 mod 64) #
             char_of (0x80 + cp mod 64) # rest) =
          (((0xE0 + cp div 4096 - 0xE0) * 64 + (0x80 + cp div 64 mod 64 - 0x80)) * 64 +
           (0x80 + cp mod 64 - 0x80)) # utf8_dec (0, 0, 0x80, 0xBF) rest"
    proof (rule dec3)
      show "0xE0 + cp div 4096 \<le> 0xEF" using d by simp
      show "0x80 + cp div 64 mod 64 \<le> 0xBF" by simp
      show "0x80 + cp mod 64 \<le> 0xBF" by simp
    qed (simp_all only: e0 ed le_add1)
    moreover have "((0xE0 + cp div 4096 - 0xE0) * 64 + (0x80 + cp div 64 mod 64 - 0x80)) * 64 +
           (0x80 + cp mod 64 - 0x80) = cp"
      using three_bytes_value [of cp] by simp
    ultimately show ?thesis unfolding b by (simp del: utf8_dec.simps)
  next
    case 4
    have s: "cp < 0x110000" using assms 4 by (auto simp: scalar_def)
    have b: "utf8_bytes cp = [0xF0 + cp div 262144, 0x80 + cp div 4096 mod 64,
                              0x80 + cp div 64 mod 64, 0x80 + cp mod 64]"
      using 4 assms by (simp add: utf8_bytes_def)
    have d: "cp div 262144 < 5" using s by simp
    have f0: "0xF0 + cp div 262144 = 0xF0 \<Longrightarrow> 0x90 \<le> 0x80 + cp div 4096 mod 64"
      using 4 second_byte_F0 [of cp] by simp
    have f4: "0xF0 + cp div 262144 = 0xF4 \<Longrightarrow> 0x80 + cp div 4096 mod 64 \<le> 0x8F"
      using s second_byte_F4 [of cp] by simp
    have "utf8_dec (0, 0, 0x80, 0xBF)
            (char_of (0xF0 + cp div 262144) # char_of (0x80 + cp div 4096 mod 64) #
             char_of (0x80 + cp div 64 mod 64) # char_of (0x80 + cp mod 64) # rest) =
          ((((0xF0 + cp div 262144 - 0xF0) * 64 + (0x80 + cp div 4096 mod 64 - 0x80)) * 64 +
            (0x80 + cp div 64 mod 64 - 0x80)) * 64 + (0x80 + cp mod 64 - 0x80)) #
          utf8_dec (0, 0, 0x80, 0xBF) rest"
    proof (rule dec4)
      show "0xF0 + cp div 262144 \<le> 0xF4" using d by simp
      show "0x80 + cp div 4096 mod 64 \<le> 0xBF" by simp
      show "0x80 + cp div 64 mod 64 \<le> 0xBF" by simp
      show "0x80 + cp mod 64 \<le> 0xBF" by simp
    qed (simp_all only: f0 f4 le_add1)
    moreover have "(((0xF0 + cp div 262144 - 0xF0) * 64 + (0x80 + cp div 4096 mod 64 - 0x80)) * 64 +
            (0x80 + cp div 64 mod 64 - 0x80)) * 64 + (0x80 + cp mod 64 - 0x80) = cp"
      using four_bytes_value [of cp] by simp
    ultimately show ?thesis unfolding b by (simp del: utf8_dec.simps)
  qed
qed

lemma decode_encode: "list_all scalar t \<Longrightarrow> utf8_decode (utf8_encode t) = t"
  by (induction t) (simp_all add: utf8_decode_def utf8_encode_def dec_step)

lemma ascii_encode: "ascii s \<Longrightarrow> utf8_encode (code_points s) = s"
  by (induction s) (simp_all add: ascii_def utf8_encode_def code_points_def utf8_bytes_def)

lemma ascii_append [simp]: "ascii (s @ t) = (ascii s \<and> ascii t)"
  by (simp add: ascii_def)

lemma ascii_dec: "ascii (dec n)"
proof (induction n rule: dec.induct)
  case (1 n)
  have d: "m < 10 \<Longrightarrow> ascii [''0123456789'' ! m]" for m :: nat
  proof -
    assume "m < 10"
    then have "m \<in> {0, 1, 2, 3, 4, 5, 6, 7, 8, 9}" by auto
    then show ?thesis by (auto simp: ascii_def)
  qed
  show ?case
  proof (cases "n < 10")
    case True
    then show ?thesis using d [of n] by (subst dec.simps) simp
  next
    case False
    then show ?thesis using 1 d [of "n mod 10"] by (subst dec.simps) simp
  qed
qed

lemma ascii_stub: "ascii stub"
  by (simp add: ascii_def stub_def)

lemma ascii_templates: "\<forall>fc \<in> set DEFAULT_FILES. ascii (snd fc)"
  by (simp add: ascii_def DEFAULT_FILES_def rollup_config_js_def tsconfig_types_json_def
      gitignore_def npmignore_def readme_md_def)

lemma ascii_licenseText: "ascii (licenseText y n) = (ascii y \<and> ascii n)"
  by (simp add: licenseText_def license_tail_def) (simp add: ascii_def)

section \<open>Properties of the stages of a run\<close>

declare dec.simps [simp del]

lemma path_join_pbase: "path_join d n = pbase d @ n"
  by (simp add: path_join_def pbase_def)

lemma pbase_src [simp]: "pbase (pbase d @ ''src'') = pbase d @ ''src/''"
  by (auto simp: pbase_def)

lemma pbase_neq_self [simp]: "n \<noteq> [] \<Longrightarrow> pbase d @ n \<noteq> d"
  by (auto simp: pbase_def)

lemma trace_emit [simp]: "trace (emit es w) = trace w @ es"
  by (simp add: emit_def)

lemma fs_emit [simp]: "fs (emit es w) = fs w"
  by (simp add: emit_def)

lemma existsSync_emit [simp]: "existsSync (emit es w) p = existsSync w p"
  by (simp add: existsSync_def)

lemma writeFile_Inr:
  "writeFile e p s w = Inr w' \<Longrightarrow>
   trace w' = trace w @ [WriteFile p (utf8_encode s)] \<and>
   fs w' = (fs w)(p \<mapsto> File (utf8_encode s))"
  by (auto simp: writeFile_def split: if_splits)

lemma mkdir_Inr:
  "mkdir e p w = Inr w' \<Longrightarrow> trace w' = trace w \<and> (\<forall>q. q \<noteq> p \<longrightarrow> fs w' q = fs w q)"
  by (auto simp: mkdir_def split: option.splits node.splits if_splits)

lemma delta_refl [simp]: "delta w w []"
  by (simp add: delta_def)

lemma delta_trans: "delta w w1 es \<Longrightarrow> delta w1 w2 es2 \<Longrightarrow> delta w w2 (es @ es2)"
  by (simp add: delta_def)

lemma writeStub_summary:
  assumes "writeStub e opts w = (r, w')"
  shows "\<exists>es. delta w w' es \<and> set es \<subseteq> stub_events e"
    and "\<forall>q. q \<notin> touched e \<longrightarrow> fs w' q = fs w q"
proof -
  show "\<exists>es. delta w w' es \<and> set es \<subseteq> stub_events e"
    using assms
    by (auto simp: writeStub_def path_join_pbase Let_def delta_def stub_events_def
        dest!: writeFile_Inr mkdir_Inr split: sum.splits if_splits)
  show "\<forall>q. q \<notin> touched e \<longrightarrow> fs w' q = fs w q"
    using assms
    by (auto simp: writeStub_def path_join_pbase Let_def touched_def generated_names_def
        dest!: writeFile_Inr mkdir_Inr split: sum.splits if_splits)
qed


lemma safeWrite_summary:
  assumes "safeWrite e (cwd e) (pbase (cwd e) @ fname) content frc w = (r, w')"
  shows "\<exists>es. delta w w' es \<and> set es \<subseteq> template_events e [(fname, content)]"
    and "\<forall>q. q \<noteq> cwd e \<and> q \<noteq> pbase (cwd e) @ fname \<longrightarrow> fs w' q = fs w q"
proof -
  show "\<exists>es. delta w w' es \<and> set es \<subseteq> template_events e [(fname, content)]"
    using assms
    by (auto simp: safeWrite_def Let_def delta_def template_events_def
        dest!: writeFile_Inr mkdir_Inr split: sum.splits if_splits)
  show "\<forall>q. q \<noteq> cwd e \<and> q \<noteq> pbase (cwd e) @ fname \<longrightarrow> fs w' q = fs w q"
    using assms
    by (auto simp: safeWrite_def Let_def
        dest!: writeFile_Inr mkdir_Inr split: sum.splits if_splits)
qed

lemma template_events_Cons:
  "template_events e (x # fl) = template_events e [x] \<union> template_events e fl"
  by (auto simp: template_events_def)

lemma writeTemplates_summary:
  "writeTemplates e opts fl w = (r, w') \<Longrightarrow>
   (\<exists>es. delta w w' es \<and> set es \<subseteq> template_events e fl) \<and>
   (\<forall>q. q \<noteq> cwd e \<and> q \<notin> (\<lambda>n. pbase (cwd e) @ n) ` set (map fst fl) \<longrightarrow> fs w' q = fs w q) \<and>
   (r = None \<or> (\<exists>f. r = Some (Rejected f)))"
proof (induction fl arbitrary: w)
  case Nil
  then show ?case by (auto simp: template_events_def)
next
  case (Cons x fl)
  obtain fname content where x: "x = (fname, content)" by (cases x)
  obtain r1 w1 where s: "safeWrite e (cwd e) (pbase (cwd e) @ fname) content (force opts) w = (r1, w1)"
    by (cases "safeWrite e (cwd e) (pbase (cwd e) @ fname) content (force opts) w")
  from safeWrite_summary [OF s]
  obtain es1 where d1: "delta w w1 es1" and e1: "set es1 \<subseteq> template_events e [(fname, content)]"
    and f1: "\<forall>q. q \<noteq> cwd e \<and> q \<noteq> pbase (cwd e) @ fname \<longrightarrow> fs w1 q = fs w q"
    by blast
  show ?case
  proof (cases r1)
    case (Inl f)
    then have "r = Some (Rejected f)" and "w' = w1"
      using Cons.prems x s by (simp_all add: path_join_pbase)
    moreover have "set es1 \<subseteq> template_events e (x # fl)"
      using e1 x template_events_Cons [of e "(fname, content)" fl] by auto
    ultimately show ?thesis using d1 f1 x by auto
  next
    case (Inr ok)
    then have "writeTemplates e opts fl w1 = (r, w')"
      using Cons.prems x s by (simp add: path_join_pbase)
    from Cons.IH [OF this]
    obtain es2 where d2: "delta w1 w' es2" and e2: "set es2 \<subseteq> template_events e fl"
      and f2: "\<forall>q. q \<noteq> cwd e \<and> q \<notin> (\<lambda>n. pbase (cwd e) @ n) ` set (map fst fl) \<longrightarrow> fs w' q = fs w1 q"
      and r2: "r = None \<or> (\<exists>f. r = Some (Rejected f))"
      by blast
    have "delta w w' (es1 @ es2)" using d1 d2 by (rule delta_trans)
    moreover have "set (es1 @ es2) \<subseteq> template_events e (x # fl)"
      using e1 e2 x template_events_Cons [of e "(fname, content)" fl] by auto
    moreover have "\<forall>q. q \<noteq> cwd e \<and> q \<notin> (\<lambda>n. pbase (cwd e) @ n) ` set (map fst (x # fl)) \<longrightarrow>
                    fs w' q = fs w q"
      using f1 f2 x by auto
    ultimately show ?thesis using r2 by blast
  qed
qed

lemma authorName_summary:
  "authorName e opts pkgObj w = (r, w') \<Longrightarrow>
   fs w' = fs w \<and>
   (\<exists>es. delta w w' es \<and> set es \<subseteq> {ExecSync ''git config --get user.name''}) \<and>
   (\<forall>v. r = Inr v \<longrightarrow> v = resolvedName e opts pkgObj)"
  by (auto simp: authorName_def resolvedName_def Let_def delta_def
      split: option.splits list.splits sum.splits if_splits)

lemma writeLicense_cases:
  assumes "writeLicense e opts pkgObj w = (r, w')"
  shows "(r = None \<and> w' = emit [Log ''Skipping LICENSE (exists).''] w \<and>
            existsSync w (pbase (cwd e) @ ''LICENSE'') \<and> \<not> force opts) \<or>
         (\<exists>f es. r = Some (Rejected f) \<and> fs w' = fs w \<and> trace w' = trace w @ es \<and>
            set es \<subseteq> {ExecSync ''git config --get user.name''}) \<or>
         (\<exists>es nm w1 w2. r = None \<and> interpolate e (resolvedName e opts pkgObj) = Inr nm \<and>
            set es \<subseteq> {ExecSync ''git config --get user.name''} \<and>
            trace w1 = trace w @ es \<and> fs w1 = fs w \<and>
            writeFile e (pbase (cwd e) @ ''LICENSE'') (code_points (licenseText (dec (year e)) nm)) w1 = Inr w2 \<and>
            w' = emit [Log ''Wrote LICENSE''] w2)"
proof (cases "existsSync w (pbase (cwd e) @ ''LICENSE'') \<and> \<not> force opts")
  case True
  then show ?thesis using assms by (simp add: writeLicense_def path_join_pbase)
next
  case False
  obtain r1 w1 where a: "authorName e opts pkgObj w = (r1, w1)"
    by (cases "authorName e opts pkgObj w")
  from authorName_summary [OF a]
  obtain es1 where f1: "fs w1 = fs w" and d1: "trace w1 = trace w @ es1"
    and e1: "set es1 \<subseteq> {ExecSync ''git config --get user.name''}"
    and v1: "\<forall>v. r1 = Inr v \<longrightarrow> v = resolvedName e opts pkgObj"
    by (auto simp: delta_def)
  have wl: "writeLicense e opts pkgObj w =
     (case r1 of
        Inl x \<Rightarrow> (Some (Rejected x), w1)
      | Inr v \<Rightarrow>
          (case interpolate e v of
             Inl x \<Rightarrow> (Some (Rejected x), w1)
           | Inr name_text \<Rightarrow>
               (case writeFile e (pbase (cwd e) @ ''LICENSE'') (code_points (licenseText (dec (year e)) name_text)) w1 of
                  Inl x \<Rightarrow> (Some (Rejected x), w1)
                | Inr w2 \<Rightarrow> (None, emit [Log ''Wrote LICENSE''] w2))))"
    using False a by (simp add: writeLicense_def path_join_pbase)
  show ?thesis
  proof (cases r1)
    case (Inl x)
    then have "r = Some (Rejected x)" "w' = w1" using wl assms by simp_all
    then show ?thesis using f1 d1 e1 by blast
  next
    case (Inr v)
    then have v: "v = resolvedName e opts pkgObj" using v1 by simp
    show ?thesis
    proof (cases "interpolate e v")
      case (Inl x)
      then have "r = Some (Rejected x)" "w' = w1" using wl assms Inr by simp_all
      then show ?thesis using f1 d1 e1 by blast
    next
      case (Inr nm)
      note nm = Inr
      show ?thesis
      proof (cases "writeFile e (pbase (cwd e) @ ''LICENSE'') (code_points (licenseText (dec (year e)) nm)) w1")
        case (Inl x)
        then have "r = Some (Rejected x)" "w' = w1" using wl assms nm \<open>r1 = Inr v\<close> by simp_all
        then show ?thesis using f1 d1 e1 by blast
      next
        case (Inr w2)
        then have "r = None" "w' = emit [Log ''Wrote LICENSE''] w2"
          using wl assms nm \<open>r1 = Inr v\<close> by simp_all
        then show ?thesis using f1 d1 e1 nm v Inr by blast
      qed
    qed
  qed
qed

lemma runCmd_world: "runCmd e cmd args w = (r, w') \<Longrightarrow> w' = emit [Spawn cmd args] w"
  by (auto simp: runCmd_def Let_def split: proc_result.splits if_splits)

lemma tryInstall_summary:
  "tryInstall e opts w = (r, w') \<Longrightarrow>
   fs w' = fs w \<and> (\<exists>es. delta w w' es \<and> (\<forall>ev \<in> set es. \<not> is_write ev))"
  by (auto simp: tryInstall_def delta_def dest!: runCmd_world split: if_splits)

lemma install_noInstall:
  "noInstall opts \<Longrightarrow>
   install e opts w =
     (Exit 0, emit [Log ''Skipping install ( --no-install )'',
                    Log ''Done. Review and commit the changes if OK.''] w)"
  by (simp add: install_def)

lemma install_summary:
  assumes "install e opts w = (r, w')"
  shows "fs w' = fs w \<and> (\<exists>es. delta w w' es \<and> (\<forall>ev \<in> set es. \<not> is_write ev)) \<and>
         (\<forall>f. r \<noteq> Rejected f)"
proof (cases "noInstall opts")
  case True
  then show ?thesis using assms by (auto simp: install_noInstall delta_def)
next
  case False
  obtain r1 w1 where t: "tryInstall e opts (emit [Log (''Installing devDependencies: '' @ join_sp devDeps)] w) = (r1, w1)"
    by (cases "tryInstall e opts (emit [Log (''Installing devDependencies: '' @ join_sp devDeps)] w)")
  from tryInstall_summary [OF t] obtain es1 where f1: "fs w1 = fs w"
    and d1: "trace w1 = trace w @ Log (''Installing devDependencies: '' @ join_sp devDeps) # es1"
    and e1: "\<forall>ev \<in> set es1. \<not> is_write ev"
    by (auto simp: delta_def)
  have nr: "r1 \<noteq> Ended (Rejected f)" for f
    using t by (auto simp: tryInstall_def runCmd_def Let_def split: if_splits proc_result.splits)
  show ?thesis
    using assms False t f1 d1 e1 nr
    by (cases r1) (auto simp: install_def delta_def installFailed_def)
qed




lemma writeStub_outcome:
  "writeStub e opts w = (r, w') \<Longrightarrow> r = None \<or> (\<exists>f. r = Some (Rejected f))"
  by (auto simp: writeStub_def Let_def split: sum.splits if_splits)

lemma touched_templates:
  "q \<notin> touched e \<Longrightarrow> q \<noteq> cwd e \<and> q \<notin> (\<lambda>n. pbase (cwd e) @ n) ` set (map fst DEFAULT_FILES)"
  by (auto simp: touched_def generated_names_def)

lemma touched_license: "q \<notin> touched e \<Longrightarrow> q \<noteq> pbase (cwd e) @ ''LICENSE''"
  by (auto simp: touched_def generated_names_def)

lemma writeLicense_summary:
  assumes "writeLicense e opts pkgObj w = (r, w')"
  shows "(\<exists>es. delta w w' es \<and> set es \<subseteq> license_events e opts pkgObj) \<and>
         (\<forall>q. q \<noteq> pbase (cwd e) @ ''LICENSE'' \<longrightarrow> fs w' q = fs w q) \<and>
         (r = None \<or> (\<exists>f. r = Some (Rejected f)))"
  using writeLicense_cases [OF assms]
proof (elim disjE exE conjE)
  assume "r = None" "w' = emit [Log ''Skipping LICENSE (exists).''] w"
  then show ?thesis by (auto simp: delta_def license_events_def)
next
  fix f es
  assume "r = Some (Rejected f)" "fs w' = fs w" "trace w' = trace w @ es"
    "set es \<subseteq> {ExecSync ''git config --get user.name''}"
  then show ?thesis by (auto simp: delta_def license_events_def)
next
  fix es nm w1 w2
  assume a: "r = None" "interpolate e (resolvedName e opts pkgObj) = Inr nm"
    "set es \<subseteq> {ExecSync ''git config --get user.name''}"
    "trace w1 = trace w @ es" "fs w1 = fs w"
    "writeFile e (pbase (cwd e) @ ''LICENSE'') (code_points (licenseText (dec (year e)) nm)) w1 = Inr w2"
    "w' = emit [Log ''Wrote LICENSE''] w2"
  from writeFile_Inr [OF a(6)] a(1,2,3,4,5,7)
  show ?thesis by (auto simp: delta_def license_events_def)
qed

lemma generate_cases:
  assumes "generate e opts pkgObj w = (r, w')"
  shows "\<exists>w3 es. delta w w3 es \<and> set es \<subseteq> generated_events e opts pkgObj \<and>
           (\<forall>q. q \<notin> touched e \<longrightarrow> fs w3 q = fs w q) \<and>
           ((\<exists>f. r = Rejected f \<and> w' = w3) \<or> install e opts w3 = (r, w'))"
proof -
  obtain r1 w1 where s1: "writeStub e opts w = (r1, w1)" by (cases "writeStub e opts w")
  from writeStub_summary [OF s1] obtain es1 where d1: "delta w w1 es1"
    and e1: "set es1 \<subseteq> generated_events e opts pkgObj"
    and f1: "\<forall>q. q \<notin> touched e \<longrightarrow> fs w1 q = fs w q"
    by (auto simp: generated_events_def)
  show ?thesis
  proof (cases r1)
    case (Some how)
    then obtain f where "how = Rejected f" using writeStub_outcome [OF s1] by auto
    then have "r = Rejected f" "w' = w1" using assms s1 Some by (simp_all add: generate_def)
    then show ?thesis using d1 e1 f1 by blast
  next
    case None
    note n1 = None
    obtain r2 w2 where s2: "writeTemplates e opts DEFAULT_FILES w1 = (r2, w2)"
      by (cases "writeTemplates e opts DEFAULT_FILES w1")
    from writeTemplates_summary [OF s2] obtain es2 where d2: "delta w1 w2 es2"
      and e2: "set es2 \<subseteq> generated_events e opts pkgObj"
      and f2: "\<forall>q. q \<notin> touched e \<longrightarrow> fs w2 q = fs w1 q"
      and o2: "r2 = None \<or> (\<exists>f. r2 = Some (Rejected f))"
      using touched_templates [of _ e] by (auto simp: generated_events_def)
    have d12: "delta w w2 (es1 @ es2)" using d1 d2 by (rule delta_trans)
    have e12: "set (es1 @ es2) \<subseteq> generated_events e opts pkgObj" using e1 e2 by simp
    have f12: "\<forall>q. q \<notin> touched e \<longrightarrow> fs w2 q = fs w q" using f1 f2 by simp
    show ?thesis
    proof (cases r2)
      case (Some how)
      then obtain f where "how = Rejected f" using o2 by auto
      then have "r = Rejected f" "w' = w2"
        using assms s1 s2 n1 Some by (simp_all add: generate_def)
      then show ?thesis using d12 e12 f12 by blast
    next
      case None
      note n2 = None
      obtain r3 w3 where s3: "writeLicense e opts pkgObj w2 = (r3, w3)"
        by (cases "writeLicense e opts pkgObj w2")
      from writeLicense_summary [OF s3] obtain es3 where d3: "delta w2 w3 es3"
        and e3: "set es3 \<subseteq> generated_events e opts pkgObj"
        and f3: "\<forall>q. q \<notin> touched e \<longrightarrow> fs w3 q = fs w2 q"
        and o3: "r3 = None \<or> (\<exists>f. r3 = Some (Rejected f))"
        using touched_license [of _ e] by (auto simp: generated_events_def)
      have d123: "delta w w3 ((es1 @ es2) @ es3)" using d12 d3 by (rule delta_trans)
      have e123: "set ((es1 @ es2) @ es3) \<subseteq> generated_events e opts pkgObj"
        using e12 e3 by simp
      have f123: "\<forall>q. q \<notin> touched e \<longrightarrow> fs w3 q = fs w q" using f12 f3 by simp
      show ?thesis
      proof (cases r3)
        case (Some how)
        then obtain f where "how = Rejected f" using o3 by auto
        then have "r = Rejected f" "w' = w3"
          using assms s1 s2 s3 n1 n2 Some by (simp_all add: generate_def)
        then show ?thesis using d123 e123 f123 by blast
      next
        case None
        then have "install e opts w3 = (r, w')"
          using assms s1 s2 s3 n1 n2 by (simp add: generate_def)
        then show ?thesis using d123 e123 f123 by blast
      qed
    qed
  qed
qed

section \<open>Properties of a whole run\<close>

lemma mainWith_cases:
  assumes "mainWith e opts w = (r, W)"
  shows "(fs w (pbase (cwd e) @ ''package.json'') = None \<and> r = Exit 1 \<and>
            W = emit [Err no_package_json_text] w) \<or>
         (fs w (pbase (cwd e) @ ''package.json'') \<noteq> None \<and> (\<exists>f. r = Rejected f) \<and> W = w) \<or>
         (\<exists>raw0 pkg0 w1.
            fs w (pbase (cwd e) @ ''package.json'') = Some (File raw0) \<and>
            json_parse e (utf8_decode raw0) = Some pkg0 \<and>
            writeFile e (pbase (cwd e) @ bakName e) (utf8_decode raw0) w = Inr w1 \<and>
            (((\<exists>f. r = Rejected f) \<and>
              W = emit [Log (''Backed up package.json -> '' @ bakName e)] w1) \<or>
             (\<exists>pkg1 w3.
                mergeManifest pkg0 = Inr pkg1 \<and>
                writeFile e (pbase (cwd e) @ ''package.json'') (code_points (json_stringify e pkg1 @ ''\<newline>''))
                  (emit [Log (''Backed up package.json -> '' @ bakName e)] w1) = Inr w3 \<and>
                generate e opts pkg1 (emit [Log ''Updated package.json (merged fields).''] w3) = (r, W))))"
  using assms
  by (auto simp: mainWith_def Let_def path_join_pbase existsSync_def readFile_def
      split: option.splits node.splits sum.splits if_splits)


lemma parseArgs_printed: "snd (parseArgs raw) = Inr opts \<Longrightarrow> parseArgs raw = ([], Inr opts)"
proof -
  assume a: "snd (parseArgs raw) = Inr opts"
  then have n: "raw \<noteq> []" by (auto simp: parseArgs_def)
  with a have "snd (parseLoop initial_opts raw) = Inr opts" by (simp add: parseArgs_def)
  from this parseLoop_printed [OF this] have "parseLoop initial_opts raw = ([], Inr opts)"
    by (cases "parseLoop initial_opts raw") simp
  then show ?thesis using n by (simp add: parseArgs_def)
qed

lemma parseLoop_console:
  "ev \<in> set (fst (parseLoop out raw)) \<Longrightarrow> (\<exists>s. ev = Log s) \<or> (\<exists>s. ev = Err s)"
proof (induction out raw rule: parseLoop_cases)
  case (Pkg out a rest)
  then show ?case by (cases rest) (auto simp: parseLoop_pkg usage_def split: if_splits)
qed (simp_all add: parseLoop_help parseLoop_noInstall parseLoop_force parseLoop_name
      parseLoop_other usage_def)

lemma parseArgs_console:
  "ev \<in> set (fst (parseArgs raw)) \<Longrightarrow> (\<exists>s. ev = Log s) \<or> (\<exists>s. ev = Err s)"
  using parseLoop_console [of ev initial_opts raw]
  by (auto simp: parseArgs_def usage_def split: if_splits)

lemma parseLoop_exit_code:
  "snd (parseLoop out raw) = Inl c \<Longrightarrow>
   c = 1 \<or> (c = 0 \<and> (''-h'' \<in> set raw \<or> ''--help'' \<in> set raw))"
proof (induction out raw rule: parseLoop_cases)
  case (Pkg out a rest)
  then show ?case by (cases rest) (auto simp: parseLoop_pkg split: if_splits)
next
  case (Help out a rest)
  then show ?case by (auto simp: parseLoop_help)
qed (auto simp: parseLoop_noInstall parseLoop_force parseLoop_name parseLoop_other)

lemma main_cases:
  assumes "run e raw files = (r, W)"
  shows "(\<exists>code. snd (parseArgs raw) = Inl code \<and> r = Exit code \<and> fs W = files \<and>
            trace W = fst (parseArgs raw)) \<or>
         (\<exists>opts. parseArgs raw = ([], Inr opts) \<and>
            mainWith e opts \<lparr>fs = files, trace = []\<rparr> = (r, W))"
proof (cases "snd (parseArgs raw)")
  case (Inl code)
  then show ?thesis using assms
    by (cases "parseArgs raw") (auto simp: run_def main_def emit_def)
next
  case (Inr opts)
  then have "parseArgs raw = ([], Inr opts)" by (rule parseArgs_printed)
  then show ?thesis using assms by (simp add: run_def main_def emit_def)
qed

lemma mainWith_shape:
  assumes "mainWith e opts \<lparr>fs = files, trace = []\<rparr> = (r, W)"
  shows "(files (pkgPath e) = None \<and> r = Exit 1 \<and> fs W = files \<and>
            trace W = [Err no_package_json_text]) \<or>
         (files (pkgPath e) \<noteq> None \<and> (\<exists>f. r = Rejected f) \<and> fs W = files \<and> trace W = []) \<or>
         (\<exists>raw0 pkg0.
            files (pkgPath e) = Some (File raw0) \<and> json_parse e (utf8_decode raw0) = Some pkg0 \<and>
            files (bakPath e) \<noteq> Some Dir \<and> \<not> io_fails e Write (bakPath e) \<and>
            (((\<exists>f. r = Rejected f) \<and> fs W = files(bakPath e \<mapsto> File (utf8_encode (utf8_decode raw0))) \<and>
              trace W = [WriteFile (bakPath e) (utf8_encode (utf8_decode raw0)),
                         Log (''Backed up package.json -> '' @ bakName e)]) \<or>
             (\<exists>pkg1 w3 es.
                mergeManifest pkg0 = Inr pkg1 \<and> set es \<subseteq> generated_events e opts pkg1 \<and>
                trace w3 = head_events e raw0 pkg1 @ es \<and>
                (\<forall>q. q \<notin> touched e \<longrightarrow>
                   fs w3 q = (files(bakPath e \<mapsto> File (utf8_encode (utf8_decode raw0)),
                                    pkgPath e \<mapsto> File (utf8_encode (code_points (json_stringify e pkg1 @ ''\<newline>''))))) q) \<and>
                ends_from e opts w3 r W)))"
  using mainWith_cases [OF assms]
proof (elim disjE exE conjE)
  fix raw0 pkg0 w1 pkg1 w3
  assume a: "fs \<lparr>fs = files, trace = []\<rparr> (pbase (cwd e) @ ''package.json'') = Some (File raw0)"
    "json_parse e (utf8_decode raw0) = Some pkg0"
    "writeFile e (pbase (cwd e) @ bakName e) (utf8_decode raw0) \<lparr>fs = files, trace = []\<rparr> = Inr w1"
    "mergeManifest pkg0 = Inr pkg1"
    "writeFile e (pbase (cwd e) @ ''package.json'') (code_points (json_stringify e pkg1 @ ''\<newline>''))
       (emit [Log (''Backed up package.json -> '' @ bakName e)] w1) = Inr w3"
    "generate e opts pkg1 (emit [Log ''Updated package.json (merged fields).''] w3) = (r, W)"
  have b: "files (bakPath e) \<noteq> Some Dir \<and> \<not> io_fails e Write (bakPath e)"
    using a(3) by (auto simp: writeFile_def bakPath_def split: if_splits)
  from writeFile_Inr [OF a(3)] have w1: "trace w1 = [WriteFile (bakPath e) (utf8_encode (utf8_decode raw0))]"
    "fs w1 = files(bakPath e \<mapsto> File (utf8_encode (utf8_decode raw0)))" by (simp_all add: bakPath_def)
  from writeFile_Inr [OF a(5)] w1
  have w3: "trace w3 = [WriteFile (bakPath e) (utf8_encode (utf8_decode raw0)),
                        Log (''Backed up package.json -> '' @ bakName e),
                        WriteFile (pkgPath e) (utf8_encode (code_points (json_stringify e pkg1 @ ''\<newline>'')))]"
    "fs w3 = files(bakPath e \<mapsto> File (utf8_encode (utf8_decode raw0)), pkgPath e \<mapsto> File (utf8_encode (code_points (json_stringify e pkg1 @ ''\<newline>''))))"
    by (simp_all add: pkgPath_def)
  from generate_cases [OF a(6)] obtain w4 es where
    g: "delta (emit [Log ''Updated package.json (merged fields).''] w3) w4 es"
      "set es \<subseteq> generated_events e opts pkg1"
      "\<forall>q. q \<notin> touched e \<longrightarrow> fs w4 q = fs (emit [Log ''Updated package.json (merged fields).''] w3) q"
      "(\<exists>f. r = Rejected f \<and> W = w4) \<or> install e opts w4 = (r, W)"
    by blast
  have t4: "trace w4 = head_events e raw0 pkg1 @ es"
    using g(1) w3(1) by (simp add: delta_def head_events_def)
  have f4: "\<forall>q. q \<notin> touched e \<longrightarrow>
              fs w4 q = (files(bakPath e \<mapsto> File (utf8_encode (utf8_decode raw0)),
                               pkgPath e \<mapsto> File (utf8_encode (code_points (json_stringify e pkg1 @ ''\<newline>''))))) q"
    using g(3) w3(2) by simp
  have en: "ends_from e opts w4 r W" using g(4) by (simp add: ends_from_def)
  have "\<exists>pkg1 w3 es.
          mergeManifest pkg0 = Inr pkg1 \<and> set es \<subseteq> generated_events e opts pkg1 \<and>
          trace w3 = head_events e raw0 pkg1 @ es \<and>
          (\<forall>q. q \<notin> touched e \<longrightarrow>
             fs w3 q = (files(bakPath e \<mapsto> File (utf8_encode (utf8_decode raw0)),
                              pkgPath e \<mapsto> File (utf8_encode (code_points (json_stringify e pkg1 @ ''\<newline>''))))) q) \<and>
          ends_from e opts w3 r W"
    using a(4) g(2) t4 f4 en by blast
  then show ?thesis using a(1,2) b by (auto simp: pkgPath_def)
next
  fix raw0 pkg0 w1 f
  assume a: "fs \<lparr>fs = files, trace = []\<rparr> (pbase (cwd e) @ ''package.json'') = Some (File raw0)"
    "json_parse e (utf8_decode raw0) = Some pkg0"
    "writeFile e (pbase (cwd e) @ bakName e) (utf8_decode raw0) \<lparr>fs = files, trace = []\<rparr> = Inr w1"
    "r = Rejected f"
    "W = emit [Log (''Backed up package.json -> '' @ bakName e)] w1"
  have b: "files (bakPath e) \<noteq> Some Dir \<and> \<not> io_fails e Write (bakPath e)"
    using a(3) by (auto simp: writeFile_def bakPath_def split: if_splits)
  from writeFile_Inr [OF a(3)] have w1: "trace w1 = [WriteFile (bakPath e) (utf8_encode (utf8_decode raw0))]"
    "fs w1 = files(bakPath e \<mapsto> File (utf8_encode (utf8_decode raw0)))" by (simp_all add: bakPath_def)
  show ?thesis using a(1,2,4,5) b w1 by (auto simp: pkgPath_def)
qed (auto simp: pkgPath_def emit_def)

lemma bakName_not_generated: "bakName e \<notin> set generated_names"
  by (simp add: bakName_def generated_names_def DEFAULT_FILES_def)

lemma bakName_not_manifest: "bakName e \<noteq> ''package.json''"
  by (simp add: bakName_def)

lemma manifest_not_generated: "''package.json'' \<notin> set generated_names"
  by (simp add: generated_names_def DEFAULT_FILES_def)

lemma bakPath_not_touched: "bakPath e \<notin> touched e"
  using bakName_not_generated [of e]
  by (auto simp: touched_def bakPath_def bakName_def)

lemma pkgPath_not_touched: "pkgPath e \<notin> touched e"
  using manifest_not_generated by (auto simp: touched_def pkgPath_def)

lemma bakPath_not_pkgPath: "bakPath e \<noteq> pkgPath e"
  using bakName_not_manifest [of e] by (simp add: bakPath_def pkgPath_def)

lemma template_events_kinds:
  assumes "ev \<in> template_events e fl"
  shows "(\<forall>c a. ev \<noteq> Spawn c a) \<and> (\<forall>s. ev \<noteq> ExecSync s) \<and>
         (\<forall>p c. ev = WriteFile p c \<longrightarrow> p \<in> (\<lambda>n. pbase (cwd e) @ n) ` set (map fst fl))"
  using assms by (force simp: template_events_def)

lemma generated_events_kinds:
  assumes "ev \<in> generated_events e opts pkgObj"
  shows "(\<forall>c a. ev \<noteq> Spawn c a) \<and>
         (\<forall>s. ev = ExecSync s \<longrightarrow> s = ''git config --get user.name'') \<and>
         (\<forall>p c. ev = WriteFile p c \<longrightarrow> p \<in> touched e)"
proof -
  consider "ev \<in> stub_events e" | "ev \<in> template_events e DEFAULT_FILES"
    | "ev \<in> license_events e opts pkgObj"
    using assms by (auto simp: generated_events_def)
  then show ?thesis
  proof cases
    case 1
    then show ?thesis by (auto simp: stub_events_def touched_def generated_names_def)
  next
    case 2
    from template_events_kinds [OF this] show ?thesis
      by (auto simp: touched_def generated_names_def)
  next
    case 3
    then show ?thesis
      by (auto simp: license_events_def touched_def generated_names_def split: sum.splits)
  qed
qed


section \<open>The example runs, evaluated\<close>

lemma example_decoded:
  "utf8_decode ''{}'' = code_points ''{}''"
  "utf8_decode ''{'' \<noteq> code_points ''{}''"
  by (simp_all add: utf8_decode_def code_points_def)

lemma example_encoded:
  "utf8_encode (code_points ''{}'') = ''{}''"
  "utf8_encode (code_points (example_merged_text @ ''\<newline>'')) = example_merged_text @ ''\<newline>''"
  "utf8_encode (code_points stub) = stub"
  "utf8_encode (code_points rollup_config_js) = rollup_config_js"
  "utf8_encode (code_points tsconfig_types_json) = tsconfig_types_json"
  "utf8_encode (code_points gitignore) = gitignore"
  "utf8_encode (code_points npmignore) = npmignore"
  "utf8_encode (code_points readme_md) = readme_md"
  "utf8_encode (code_points (licenseText (dec 2026) ''Ada Lovelace'')) =
     licenseText (dec 2026) ''Ada Lovelace''"
proof -
  show "utf8_encode (code_points ''{}'') = ''{}''"
    by (rule ascii_encode) (simp add: ascii_def)
  show "utf8_encode (code_points (example_merged_text @ ''\<newline>'')) =
          example_merged_text @ ''\<newline>''"
    by (rule ascii_encode) (simp add: ascii_def example_merged_text_def)
  show "utf8_encode (code_points stub) = stub"
    by (rule ascii_encode) (rule ascii_stub)
  show "utf8_encode (code_points rollup_config_js) = rollup_config_js"
    by (rule ascii_encode) (use ascii_templates in \<open>simp add: DEFAULT_FILES_def\<close>)
  show "utf8_encode (code_points tsconfig_types_json) = tsconfig_types_json"
    by (rule ascii_encode) (use ascii_templates in \<open>simp add: DEFAULT_FILES_def\<close>)
  show "utf8_encode (code_points gitignore) = gitignore"
    by (rule ascii_encode) (use ascii_templates in \<open>simp add: DEFAULT_FILES_def\<close>)
  show "utf8_encode (code_points npmignore) = npmignore"
    by (rule ascii_encode) (use ascii_templates in \<open>simp add: DEFAULT_FILES_def\<close>)
  show "utf8_encode (code_points readme_md) = readme_md"
    by (rule ascii_encode) (use ascii_templates in \<open>simp add: DEFAULT_FILES_def\<close>)
  show "utf8_encode (code_points (licenseText (dec 2026) ''Ada Lovelace'')) =
          licenseText (dec 2026) ''Ada Lovelace''"
    by (rule ascii_encode) (simp add: ascii_licenseText ascii_dec, simp add: ascii_def)
qed

lemmas run_eval =
  run_def main_def parseArgs_def parseLoop_help parseLoop_noInstall parseLoop_force parseLoop_name
  parseLoop_other parseLoop_pkg initial_opts_def mainWith_def existsSync_def readFile_def
  writeFile_def emit_def mkdir_def generate_def writeStub_def safeWrite_def DEFAULT_FILES_def
  writeLicense_def authorName_def interpolate_def install_def path_join_def Let_def
  example_env_def example_files_def example_files_full_def bakName_def mergeManifest_obj
  example_decoded example_encoded

lemma example_run_again:
  "run example_env [''--no-install''] example_files_full =
     (Exit 0,
      \<lparr>fs = example_files_full
              (''/proj/package.json.setup-backup.'' @ dec 1762167600000 @ ''.json'' \<mapsto> File ''{}'',
               ''/proj/package.json'' \<mapsto> File (example_merged_text @ ''\<newline>'')),
       trace =
         [WriteFile (''/proj/package.json.setup-backup.'' @ dec 1762167600000 @ ''.json'') ''{}'',
          Log (''Backed up package.json -> package.json.setup-backup.'' @ dec 1762167600000 @ ''.json''),
          WriteFile ''/proj/package.json'' (example_merged_text @ ''\<newline>''),
          Log ''Updated package.json (merged fields).'',
          Log ''Skipping src/index.js (exists).'',
          Log ''Skipping /proj/rollup.config.js (exists). Use --force to overwrite.'',
          Log ''Skipping /proj/tsconfig.types.json (exists). Use --force to overwrite.'',
          Log ''Skipping /proj/.gitignore (exists). Use --force to overwrite.'',
          Log ''Skipping /proj/.npmignore (exists). Use --force to overwrite.'',
          Log ''Skipping /proj/README.md (exists). Use --force to overwrite.'',
          Log ''Skipping LICENSE (exists).'',
          Log ''Skipping install ( --no-install )'',
          Log ''Done. Review and commit the changes if OK.'']\<rparr>)"
  by (simp add: run_eval)


lemma trim_example: "trim ''Ada Lovelace\<newline>'' = ''Ada Lovelace''"
  by code_simp

lemma example_run_fresh:
  "fst (run example_env [''--no-install''] example_files) = Exit 0 \<and>
   trace (snd (run example_env [''--no-install''] example_files)) =
     [WriteFile (''/proj/package.json.setup-backup.'' @ dec 1762167600000 @ ''.json'') ''{}'',
      Log (''Backed up package.json -> package.json.setup-backup.'' @ dec 1762167600000 @ ''.json''),
      WriteFile ''/proj/package.json'' (example_merged_text @ ''\<newline>''),
      Log ''Updated package.json (merged fields).'',
      WriteFile ''/proj/src/index.js'' stub,
      Log ''Wrote src/index.js (stub).'',
      WriteFile ''/proj/rollup.config.js'' rollup_config_js,
      Log ''Wrote /proj/rollup.config.js'',
      WriteFile ''/proj/tsconfig.types.json'' tsconfig_types_json,
      Log ''Wrote /proj/tsconfig.types.json'',
      WriteFile ''/proj/.gitignore'' gitignore,
      Log ''Wrote /proj/.gitignore'',
      WriteFile ''/proj/.npmignore'' npmignore,
      Log ''Wrote /proj/.npmignore'',
      WriteFile ''/proj/README.md'' readme_md,
      Log ''Wrote /proj/README.md'',
      ExecSync ''git config --get user.name'',
      WriteFile ''/proj/LICENSE'' (licenseText (dec 2026) ''Ada Lovelace''),
      Log ''Wrote LICENSE'',
      Log ''Skipping install ( --no-install )'',
      Log ''Done. Review and commit the changes if OK.'']"
  by (simp add: run_eval gitName_def trim_example merged_def default_simple_def default_scripts_def
      fillV_def fillA_def setV_def scripts0_def)


lemma example_run_no_manifest:
  "run example_env [''--no-install''] Map.empty =
     (Exit 1, \<lparr>fs = Map.empty, trace = [Err no_package_json_text]\<rparr>)"
  by (simp add: run_eval)

lemma example_run_help:
  "run example_env [''--help''] files = (Exit 0, \<lparr>fs = files, trace = usage\<rparr>)"
  by (simp add: run_eval)

lemma example_run_malformed:
  "run example_env [''--no-install''] (example_files_full(''/proj/package.json'' \<mapsto> File ''{''))  =
     (Rejected SyntaxError,
      \<lparr>fs = example_files_full(''/proj/package.json'' \<mapsto> File ''{''), trace = []\<rparr>)"
  by (simp add: run_eval)

lemma after_generate:
  assumes "ends_from e opts w3 r W"
  shows "fs W = fs w3 \<and> (\<exists>es4. trace W = trace w3 @ es4 \<and> (\<forall>ev \<in> set es4. \<not> is_write ev))"
  using assms unfolding ends_from_def
proof
  assume "(\<exists>f. r = Rejected f) \<and> W = w3"
  then show ?thesis by simp
next
  assume "install e opts w3 = (r, W)"
  from install_summary [OF this] show ?thesis by (auto simp: delta_def)
qed

lemma latin1_decoded: "utf8_decode latin1_manifest = latin1_text"
  by (simp add: utf8_decode_def latin1_manifest_def latin1_text_def code_points_def)

lemma latin1_encoded:
  \<open>utf8_encode latin1_text = ''{"a":"'' @ [CHR 0xEF, CHR 0xBF, CHR 0xBD] @ ''","a":true}''\<close>
  by (simp add: latin1_text_def code_points_def utf8_encode_def utf8_bytes_def scalar_def
      char_of_eq_iff)

lemma latin1_merged_encoded:
  "utf8_encode (code_points (latin1_merged_text @ ''\<newline>'')) = latin1_merged_text @ ''\<newline>''"
  by (rule ascii_encode) (simp add: ascii_def latin1_merged_text_def example_merged_text_def)

lemma latin1_run:
  \<open>run latin1_env [''--no-install''] latin1_files =
     (Exit 0,
      \<lparr>fs = latin1_files
              (''/proj/package.json.setup-backup.'' @ dec 1762167600000 @ ''.json'' \<mapsto>
                 File (''{"a":"'' @ [CHR 0xEF, CHR 0xBF, CHR 0xBD] @ ''","a":true}''),
               ''/proj/package.json'' \<mapsto> File (latin1_merged_text @ ''\<newline>'')),
       trace =
         [WriteFile (''/proj/package.json.setup-backup.'' @ dec 1762167600000 @ ''.json'')
            (''{"a":"'' @ [CHR 0xEF, CHR 0xBF, CHR 0xBD] @ ''","a":true}''),
          Log (''Backed up package.json -> package.json.setup-backup.'' @ dec 1762167600000 @ ''.json''),
          WriteFile ''/proj/package.json'' (latin1_merged_text @ ''\<newline>''),
          Log ''Updated package.json (merged fields).'',
          Log ''Skipping src/index.js (exists).'',
          Log ''Skipping /proj/rollup.config.js (exists). Use --force to overwrite.'',
          Log ''Skipping /proj/tsconfig.types.json (exists). Use --force to overwrite.'',
          Log ''Skipping /proj/.gitignore (exists). Use --force to overwrite.'',
          Log ''Skipping /proj/.npmignore (exists). Use --force to overwrite.'',
          Log ''Skipping /proj/README.md (exists). Use --force to overwrite.'',
          Log ''Skipping LICENSE (exists).'',
          Log ''Skipping install ( --no-install )'',
          Log ''Done. Review and commit the changes if OK.'']\<rparr>)\<close>
  by (simp add: run_eval latin1_env_def latin1_files_def latin1_decoded latin1_encoded
      latin1_merged_encoded)

text \<open>
  C3, as stated, fails on the equality of the bytes: the manifest is read as UTF-8 text and
  the backup is written from that text. A manifest with a byte that UTF-8 does not allow (here
  E9, an \<^verbatim>\<open>e\<close> with acute accent in Latin-1, inside a string) is parsed and rewritten, and its
  backup holds the three bytes EF BF BD of U+FFFD in place of that byte.
\<close>

theorem backup_not_byte_for_byte:
  \<open>latin1_files (path_join (cwd latin1_env) ''package.json'') =
     Some (File (''{"a":"'' @ [CHR 0xE9] @ ''","a":true}'')) \<and>
   fst (run latin1_env [''--no-install''] latin1_files) = Exit 0 \<and>
   WriteFile (path_join (cwd latin1_env) ''package.json'') (latin1_merged_text @ ''\<newline>'')
     \<in> set (trace (snd (run latin1_env [''--no-install''] latin1_files))) \<and>
   fs (snd (run latin1_env [''--no-install''] latin1_files))
      (path_join (cwd latin1_env) (bakName latin1_env)) =
     Some (File (''{"a":"'' @ [CHR 0xEF, CHR 0xBF, CHR 0xBD] @ ''","a":true}'')) \<and>
   ''{"a":"'' @ [CHR 0xEF, CHR 0xBF, CHR 0xBD] @ ''","a":true}'' \<noteq>
     ''{"a":"'' @ [CHR 0xE9] @ ''","a":true}''\<close>
  by (simp add: latin1_run)
     (simp add: latin1_files_def latin1_manifest_def latin1_env_def example_env_def path_join_def
        bakName_def)

text \<open>
  C3, amended. On every run that rewrites the manifest, the manifest was a file, the first
  file the run wrote is the backup, the rewrite of the manifest comes after it, and the
  backup holds, also when the run ends, the UTF-8 encoding of the manifest's content as
  decoded: byte for byte the content of the manifest whenever that content is well-formed
  UTF-8 (the encoding of a sequence of Unicode scalar values). If the backup cannot be
  written (its path is a directory, or the write fails), the run writes no file at all and
  leaves the file system as it was.
\<close>

theorem backup_before_rewrite:
  assumes "run e raw files = (r, W)"
  shows "(\<forall>c. WriteFile (path_join (cwd e) ''package.json'') c \<in> set (trace W) \<longrightarrow>
            (\<exists>raw0 post.
               files (path_join (cwd e) ''package.json'') = Some (File raw0) \<and>
               trace W = WriteFile (path_join (cwd e) (bakName e))
                           (utf8_encode (utf8_decode raw0)) # post \<and>
               WriteFile (path_join (cwd e) ''package.json'') c \<in> set post \<and>
               fs W (path_join (cwd e) (bakName e)) =
                 Some (File (utf8_encode (utf8_decode raw0))) \<and>
               (\<forall>t. list_all scalar t \<and> raw0 = utf8_encode t \<longrightarrow>
                  fs W (path_join (cwd e) (bakName e)) = Some (File raw0)))) \<and>
         (files (path_join (cwd e) (bakName e)) = Some Dir \<or>
          io_fails e Write (path_join (cwd e) (bakName e)) \<longrightarrow>
            fs W = files \<and> (\<forall>p s. WriteFile p s \<notin> set (trace W)))"
proof -
  have pj: "path_join (cwd e) ''package.json'' = pkgPath e"
    "path_join (cwd e) (bakName e) = bakPath e"
    by (simp_all add: path_join_pbase pkgPath_def bakPath_def)
  have wf: "utf8_encode (utf8_decode raw0) = raw0"
    if "list_all scalar t \<and> raw0 = utf8_encode t" for t raw0
    using that by (simp add: decode_encode)
  from main_cases [OF assms] show ?thesis
  proof (elim disjE exE conjE)
    fix code
    assume a: "snd (parseArgs raw) = Inl code" "fs W = files" "trace W = fst (parseArgs raw)"
    have "WriteFile p s \<notin> set (trace W)" for p s
      using parseArgs_console [of "WriteFile p s" raw] a(3) by auto
    then show ?thesis using a(2) by simp
  next
    fix opts
    assume "mainWith e opts \<lparr>fs = files, trace = []\<rparr> = (r, W)"
    from mainWith_shape [OF this] show ?thesis
    proof (elim disjE exE conjE)
      fix raw0 pkg0 f
      assume a: "files (bakPath e) \<noteq> Some Dir" "\<not> io_fails e Write (bakPath e)"
        "trace W = [WriteFile (bakPath e) (utf8_encode (utf8_decode raw0)),
                    Log (''Backed up package.json -> '' @ bakName e)]"
      show ?thesis using a bakPath_not_pkgPath [of e] by (auto simp: pj)
    next
      fix raw0 pkg0 pkg1 w3 es
      assume a: "files (pkgPath e) = Some (File raw0)"
        "files (bakPath e) \<noteq> Some Dir" "\<not> io_fails e Write (bakPath e)"
        "trace w3 = head_events e raw0 pkg1 @ es"
        "\<forall>q. q \<notin> touched e \<longrightarrow>
           fs w3 q = (files(bakPath e \<mapsto> File (utf8_encode (utf8_decode raw0)),
                            pkgPath e \<mapsto> File (utf8_encode (code_points
                              (json_stringify e pkg1 @ ''\<newline>''))))) q"
        "ends_from e opts w3 r W"
      from after_generate [OF a(6)] obtain es4 where
        f: "fs W = fs w3" and t: "trace W = trace w3 @ es4" by blast
      have b: "fs W (bakPath e) = Some (File (utf8_encode (utf8_decode raw0)))"
        using a(5) f bakPath_not_touched [of e] bakPath_not_pkgPath [of e] by simp
      have b': "\<forall>t. list_all scalar t \<and> raw0 = utf8_encode t \<longrightarrow>
                  fs W (bakPath e) = Some (File raw0)"
        using b wf [of _ raw0] by auto
      have tr: "trace W = WriteFile (bakPath e) (utf8_encode (utf8_decode raw0)) #
                  (Log (''Backed up package.json -> '' @ bakName e) #
                   WriteFile (pkgPath e)
                     (utf8_encode (code_points (json_stringify e pkg1 @ ''\<newline>''))) #
                   Log ''Updated package.json (merged fields).'' # es @ es4)"
        using t a(4) by (simp add: head_events_def)
      have "\<exists>post. trace W = WriteFile (bakPath e) (utf8_encode (utf8_decode raw0)) # post \<and>
                   WriteFile (pkgPath e) c \<in> set post"
        if "WriteFile (pkgPath e) c \<in> set (trace W)" for c
        using that tr bakPath_not_pkgPath [of e] by auto
      then show ?thesis using a(1,2,3) b b' by (auto simp: pj)
    qed (auto simp: pj)
  qed
qed

text \<open>C3 at the second run of the example project, whose manifest is well-formed UTF-8, and
  at a run whose backup write fails.\<close>

theorem backup_before_rewrite_witness:
  "WriteFile (path_join (cwd example_env) ''package.json'') (example_merged_text @ ''\<newline>'')
     \<in> set (trace (snd (run example_env [''--no-install''] example_files_full))) \<and>
   example_files_full (path_join (cwd example_env) ''package.json'') = Some (File ''{}'') \<and>
   list_all scalar [123, 125] \<and> ''{}'' = utf8_encode [123, 125] \<and>
   (\<exists>post.
      trace (snd (run example_env [''--no-install''] example_files_full)) =
        WriteFile (path_join (cwd example_env) (bakName example_env)) ''{}'' # post \<and>
      WriteFile (path_join (cwd example_env) ''package.json'') (example_merged_text @ ''\<newline>'')
        \<in> set post) \<and>
   fs (snd (run example_env [''--no-install''] example_files_full))
      (path_join (cwd example_env) (bakName example_env)) = Some (File ''{}'') \<and>
   io_fails (example_env\<lparr>io_fails := \<lambda>op p. op = Write\<rparr>) Write
      (path_join (cwd (example_env\<lparr>io_fails := \<lambda>op p. op = Write\<rparr>))
         (bakName (example_env\<lparr>io_fails := \<lambda>op p. op = Write\<rparr>))) \<and>
   fs (snd (run (example_env\<lparr>io_fails := \<lambda>op p. op = Write\<rparr>) [''--no-install'']
              example_files_full)) = example_files_full"
proof -
  let ?W = "snd (run example_env [''--no-install''] example_files_full)"
  let ?e2 = "example_env\<lparr>io_fails := \<lambda>op p. op = Write\<rparr>"
  have h: "WriteFile (path_join (cwd example_env) ''package.json'') (example_merged_text @ ''\<newline>'')
             \<in> set (trace ?W)"
    by (simp add: example_run_again) (simp add: path_join_def example_env_def)
  have f: "example_files_full (path_join (cwd example_env) ''package.json'') = Some (File ''{}'')"
    by (simp add: path_join_def example_env_def example_files_full_def)
  have s: "list_all scalar [123, 125]" by (simp add: scalar_def)
  have u: "''{}'' = utf8_encode [123, 125]"
    using example_encoded(1) by (simp add: code_points_def)
  have r1: "run example_env [''--no-install''] example_files_full =
              (fst (run example_env [''--no-install''] example_files_full), ?W)"
    by simp
  from backup_before_rewrite [OF r1, THEN conjunct1, rule_format, OF h]
  obtain raw0 post where
    a: "example_files_full (path_join (cwd example_env) ''package.json'') = Some (File raw0)"
    and b: "trace ?W = WriteFile (path_join (cwd example_env) (bakName example_env))
                         (utf8_encode (utf8_decode raw0)) # post"
    and c: "WriteFile (path_join (cwd example_env) ''package.json'') (example_merged_text @ ''\<newline>'')
              \<in> set post"
    and d: "\<forall>t. list_all scalar t \<and> raw0 = utf8_encode t \<longrightarrow>
              fs ?W (path_join (cwd example_env) (bakName example_env)) = Some (File raw0)"
    by blast
  have raw0: "raw0 = ''{}''" using a f by simp
  have b': "trace ?W = WriteFile (path_join (cwd example_env) (bakName example_env)) ''{}'' # post"
    using b unfolding raw0 by (simp add: example_decoded example_encoded)
  have d': "fs ?W (path_join (cwd example_env) (bakName example_env)) = Some (File ''{}'')"
    using d [unfolded raw0, rule_format, of "[123, 125]"] s u by simp
  have g: "io_fails ?e2 Write (path_join (cwd ?e2) (bakName ?e2))" by simp
  have r2: "run ?e2 [''--no-install''] example_files_full =
              (fst (run ?e2 [''--no-install''] example_files_full),
               snd (run ?e2 [''--no-install''] example_files_full))"
    by simp
  from backup_before_rewrite [OF r2, THEN conjunct2, rule_format, OF disjI2, OF g]
  have k: "fs (snd (run ?e2 [''--no-install''] example_files_full)) = example_files_full"
    by (rule conjunct1)
  have e: "\<exists>post.
      trace ?W = WriteFile (path_join (cwd example_env) (bakName example_env)) ''{}'' # post \<and>
      WriteFile (path_join (cwd example_env) ''package.json'') (example_merged_text @ ''\<newline>'')
        \<in> set post"
    using b' c by (intro exI [of _ post] conjI)
  show ?thesis by (intro conjI h f s u e d' g k)
qed

text \<open>
  C5, as stated, fails on the exit code: in a directory without a manifest a run with the
  help flag (or with no argument at all) ends in the argument parser, with exit code 0.
\<close>

theorem no_manifest_help_exits_0:
  "Map.empty (path_join (cwd example_env) ''package.json'') = None \<and>
   fst (run example_env [''--help''] Map.empty) = Exit 0"
  by (simp add: example_run_help)

text \<open>
  C5, amended. For every run started in a directory with no manifest file: no file is
  written and the file system is left as it was; the run exits with code 0 or 1; it exits
  with code 1 whenever the argument list is non-empty and holds no \<^verbatim>\<open>-h\<close>/\<^verbatim>\<open>--help\<close>; and when
  the parser returns a configuration record, the run prints the missing-manifest message and
  exits with code 1.
\<close>

theorem no_manifest_writes_nothing:
  assumes "files (path_join (cwd e) ''package.json'') = None"
    and "run e raw files = (r, W)"
  shows "fs W = files \<and> (\<forall>p s. WriteFile p s \<notin> set (trace W)) \<and>
         (r = Exit 0 \<or> r = Exit 1) \<and>
         (raw \<noteq> [] \<and> ''-h'' \<notin> set raw \<and> ''--help'' \<notin> set raw \<longrightarrow> r = Exit 1) \<and>
         (\<forall>opts. snd (parseArgs raw) = Inr opts \<longrightarrow>
            r = Exit 1 \<and> trace W = [Err no_package_json_text])"
proof -
  have n: "files (pkgPath e) = None" using assms(1) by (simp add: path_join_pbase pkgPath_def)
  from main_cases [OF assms(2)] show ?thesis
  proof (elim disjE exE conjE)
    fix code
    assume a: "snd (parseArgs raw) = Inl code" "r = Exit code" "fs W = files"
      "trace W = fst (parseArgs raw)"
    have w: "WriteFile p s \<notin> set (trace W)" for p s
      using parseArgs_console [of "WriteFile p s" raw] a(4) by auto
    have c: "code = 1 \<or> (code = 0 \<and> (raw = [] \<or> ''-h'' \<in> set raw \<or> ''--help'' \<in> set raw))"
    proof (cases "raw = []")
      case True
      then show ?thesis using a(1) by (simp add: parseArgs_def)
    next
      case False
      then have "snd (parseLoop initial_opts raw) = Inl code" using a(1) by (simp add: parseArgs_def)
      from parseLoop_exit_code [OF this] show ?thesis by blast
    qed
    show ?thesis using a(1,2,3) w c by auto
  next
    fix opts
    assume p: "parseArgs raw = ([], Inr opts)"
      and m: "mainWith e opts \<lparr>fs = files, trace = []\<rparr> = (r, W)"
    from mainWith_shape [OF m] n
    have "r = Exit 1 \<and> fs W = files \<and> trace W = [Err no_package_json_text]" by auto
    then show ?thesis using p by auto
  qed
qed

text \<open>The amended C5 at a run with \<^verbatim>\<open>--no-install\<close> in an empty directory.\<close>

theorem no_manifest_writes_nothing_witness:
  "Map.empty (path_join (cwd example_env) ''package.json'') = None \<and>
   [''--no-install''] \<noteq> [] \<and> ''-h'' \<notin> set [''--no-install''] \<and> ''--help'' \<notin> set [''--no-install''] \<and>
   run example_env [''--no-install''] Map.empty =
     (Exit 1, \<lparr>fs = Map.empty, trace = [Err no_package_json_text]\<rparr>)"
proof -
  have a: "Map.empty (path_join (cwd example_env) ''package.json'') = None" by simp
  have b: "[''--no-install''] \<noteq> [] \<and> ''-h'' \<notin> set [''--no-install''] \<and>
           ''--help'' \<notin> set [''--no-install'']" by simp
  from no_manifest_writes_nothing [OF a example_run_no_manifest] a b example_run_no_manifest
  show ?thesis by blast
qed

lemma head_events_kinds:
  "ev \<in> set (head_events e raw0 pkg1) \<Longrightarrow> (\<forall>c a. ev \<noteq> Spawn c a) \<and> (\<forall>s. ev \<noteq> ExecSync s)"
  by (auto simp: head_events_def)

text \<open>
  C4, as stated, fails: with \<^verbatim>\<open>--no-install\<close> the license step still runs
  \<^verbatim>\<open>execSync('git config --get user.name')\<close> when neither \<^verbatim>\<open>--name\<close> nor the manifest names an
  author, which starts a subprocess; and in a directory without a manifest the run exits
  with code 1.
\<close>

theorem no_install_still_queries_git:
  "snd (parseArgs [''--no-install'']) =
     Inr \<lparr>noInstall = True, force = False, name = None, pkg = ''npm''\<rparr> \<and>
   ExecSync ''git config --get user.name''
     \<in> set (trace (snd (run example_env [''--no-install''] example_files))) \<and>
   fst (run example_env [''--no-install''] Map.empty) = Exit 1"
  by (simp add: example_run_fresh example_run_no_manifest)
     (simp add: parseArgs_def parseLoop_noInstall initial_opts_def)

text \<open>
  C4, amended. For every run whose configuration has the skip-install flag set: the
  installer is never spawned; the only subprocess the run may start is the query
  \<^verbatim>\<open>git config --get user.name\<close> of the license step; and the run exits with code 0, unless
  the manifest is missing (exit code 1) or an uncaught exception ends the run.
\<close>

theorem no_install_spawns_no_installer:
  assumes "run e raw files = (r, W)"
    and "snd (parseArgs raw) = Inr opts"
    and "noInstall opts"
  shows "(\<forall>c a. Spawn c a \<notin> set (trace W)) \<and>
         (\<forall>s. ExecSync s \<in> set (trace W) \<longrightarrow> s = ''git config --get user.name'') \<and>
         (r = Exit 0 \<or>
          (r = Exit 1 \<and> files (path_join (cwd e) ''package.json'') = None) \<or>
          (\<exists>f. r = Rejected f))"
proof -
  have pj: "path_join (cwd e) ''package.json'' = pkgPath e"
    by (simp add: path_join_pbase pkgPath_def)
  from main_cases [OF assms(1)] assms(2)
  have "mainWith e opts \<lparr>fs = files, trace = []\<rparr> = (r, W)" by auto
  from mainWith_shape [OF this] show ?thesis
  proof (elim disjE exE conjE)
    fix raw0 pkg0 pkg1 w3 es
    assume a: "set es \<subseteq> generated_events e opts pkg1"
      "trace w3 = head_events e raw0 pkg1 @ es"
      "ends_from e opts w3 r W"
    have k3: "(\<forall>c a. ev \<noteq> Spawn c a) \<and> (\<forall>s. ev = ExecSync s \<longrightarrow> s = ''git config --get user.name'')"
      if "ev \<in> set (trace w3)" for ev
      using that a(1,2) head_events_kinds [of ev e raw0 pkg1]
        generated_events_kinds [of ev e opts pkg1] by auto
    from a(3) consider f where "r = Rejected f" "W = w3"
      | "r = Exit 0" "W = emit [Log ''Skipping install ( --no-install )'',
                               Log ''Done. Review and commit the changes if OK.''] w3"
      using assms(3) by (auto simp: ends_from_def install_noInstall)
    then show ?thesis
    proof cases
      case 1
      then show ?thesis using k3 by blast
    next
      case 2
      have "(\<forall>c a. ev \<noteq> Spawn c a) \<and> (\<forall>s. ev = ExecSync s \<longrightarrow> s = ''git config --get user.name'')"
        if "ev \<in> set (trace W)" for ev
        using that 2(2) k3 [of ev] by auto
      then show ?thesis using 2(1) by blast
    qed
  qed (auto simp: pj)
qed

text \<open>The amended C4 at the second run of the example project.\<close>

theorem no_install_spawns_no_installer_witness:
  "snd (parseArgs [''--no-install'']) =
     Inr \<lparr>noInstall = True, force = False, name = None, pkg = ''npm''\<rparr> \<and>
   noInstall \<lparr>noInstall = True, force = False, name = None, pkg = ''npm''\<rparr> \<and>
   fst (run example_env [''--no-install''] example_files_full) = Exit 0 \<and>
   (\<forall>c a. Spawn c a \<notin> set (trace (snd (run example_env [''--no-install''] example_files_full))))"
proof -
  have p: "snd (parseArgs [''--no-install'']) =
             Inr \<lparr>noInstall = True, force = False, name = None, pkg = ''npm''\<rparr>"
    by (simp add: parseArgs_def parseLoop_noInstall initial_opts_def)
  have n: "noInstall \<lparr>noInstall = True, force = False, name = None, pkg = ''npm''\<rparr>" by simp
  have r: "run example_env [''--no-install''] example_files_full =
             (fst (run example_env [''--no-install''] example_files_full),
              snd (run example_env [''--no-install''] example_files_full))" by simp
  have x: "fst (run example_env [''--no-install''] example_files_full) = Exit 0"
    by (simp add: example_run_again)
  from no_install_spawns_no_installer [OF r p n]
  have "\<forall>c a. Spawn c a \<notin> set (trace (snd (run example_env [''--no-install''] example_files_full)))"
    by (rule conjunct1)
  then show ?thesis using p n x by blast
qed








lemma emit_emit [simp]: "emit es2 (emit es1 w) = emit (es1 @ es2) w"
  by (simp add: emit_def)

lemma emit_Nil [simp]: "emit [] w = w"
  by (simp add: emit_def)

lemma writeTemplates_all_exist:
  assumes "\<not> force opts"
  shows "\<forall>n \<in> set (map fst fl). fs w (pbase (cwd e) @ n) \<noteq> None \<Longrightarrow>
   writeTemplates e opts fl w =
     (None, emit (map (\<lambda>n. Log (''Skipping '' @ pbase (cwd e) @ n @
                                '' (exists). Use --force to overwrite.'')) (map fst fl)) w)"
proof (induction fl arbitrary: w)
  case Nil
  then show ?case by simp
next
  case (Cons x fl)
  obtain fname content where x: "x = (fname, content)" by (cases x)
  have ex: "existsSync w (pbase (cwd e) @ fname)" using Cons.prems x by (simp add: existsSync_def)
  have "\<forall>n \<in> set (map fst fl).
          fs (emit [Log (''Skipping '' @ pbase (cwd e) @ fname @
                         '' (exists). Use --force to overwrite.'')] w) (pbase (cwd e) @ n) \<noteq> None"
    using Cons.prems by simp
  from Cons.IH [OF this] show ?case
    using x ex assms by (simp add: safeWrite_def path_join_pbase)
qed

lemma generate_all_exist:
  assumes "\<not> force opts"
    and "fs w (pbase (cwd e) @ ''src/index.js'') \<noteq> None"
    and "\<forall>n \<in> set (map fst DEFAULT_FILES). fs w (pbase (cwd e) @ n) \<noteq> None"
    and "fs w (pbase (cwd e) @ ''LICENSE'') \<noteq> None"
  shows "generate e opts pkgObj w =
     install e opts
       (emit (Log ''Skipping src/index.js (exists).'' #
              map (\<lambda>n. Log (''Skipping '' @ pbase (cwd e) @ n @
                             '' (exists). Use --force to overwrite.'')) (map fst DEFAULT_FILES) @
              [Log ''Skipping LICENSE (exists).'']) w)"
proof -
  have s: "writeStub e opts w = (None, emit [Log ''Skipping src/index.js (exists).''] w)"
    using assms(1,2) by (auto simp: writeStub_def path_join_pbase existsSync_def Let_def)
  have "\<forall>n \<in> set (map fst DEFAULT_FILES).
          fs (emit [Log ''Skipping src/index.js (exists).''] w) (pbase (cwd e) @ n) \<noteq> None"
    using assms(3) by simp
  from writeTemplates_all_exist [OF assms(1) this]
  have t: "writeTemplates e opts DEFAULT_FILES (emit [Log ''Skipping src/index.js (exists).''] w) =
     (None, emit (Log ''Skipping src/index.js (exists).'' #
              map (\<lambda>n. Log (''Skipping '' @ pbase (cwd e) @ n @
                             '' (exists). Use --force to overwrite.'')) (map fst DEFAULT_FILES)) w)"
    by simp
  have l: "writeLicense e opts pkgObj
             (emit (Log ''Skipping src/index.js (exists).'' #
              map (\<lambda>n. Log (''Skipping '' @ pbase (cwd e) @ n @
                             '' (exists). Use --force to overwrite.'')) (map fst DEFAULT_FILES)) w) =
     (None, emit (Log ''Skipping src/index.js (exists).'' #
              map (\<lambda>n. Log (''Skipping '' @ pbase (cwd e) @ n @
                             '' (exists). Use --force to overwrite.'')) (map fst DEFAULT_FILES) @
              [Log ''Skipping LICENSE (exists).'']) w)"
    using assms(1,4) by (auto simp: writeLicense_def path_join_pbase existsSync_def Let_def)
  show ?thesis by (simp only: generate_def s t l prod.case option.case)
qed

lemma generated_not_backup:
  assumes "n \<in> set (''src/index.js'' # ''LICENSE'' # map fst DEFAULT_FILES)"
  shows "pbase (cwd e) @ n \<noteq> bakPath e \<and> pbase (cwd e) @ n \<noteq> pkgPath e"
proof -
  have "n \<in> set generated_names" using assms by (auto simp: generated_names_def)
  then have "n \<noteq> bakName e" "n \<noteq> ''package.json''"
    using bakName_not_generated [of e] manifest_not_generated by auto
  then show ?thesis by (simp add: bakPath_def pkgPath_def)
qed

lemma skipped_core:
  assumes m: "mainWith e opts \<lparr>fs = files, trace = []\<rparr> = (r, W)"
    and nf: "\<not> force opts"
    and pk: "files (pbase (cwd e) @ ''package.json'') \<noteq> None"
    and ex: "\<forall>n \<in> set (''src/index.js'' # ''LICENSE'' # map fst DEFAULT_FILES).
               files (pbase (cwd e) @ n) \<noteq> None"
  shows "(\<forall>n \<in> set (''src/index.js'' # ''LICENSE'' # map fst DEFAULT_FILES).
            fs W (pbase (cwd e) @ n) = files (pbase (cwd e) @ n)) \<and>
         ((\<forall>f. r \<noteq> Rejected f) \<longrightarrow>
            set (Log ''Skipping src/index.js (exists).'' #
                 map (\<lambda>n. Log (''Skipping '' @ pbase (cwd e) @ n @
                                '' (exists). Use --force to overwrite.'')) (map fst DEFAULT_FILES) @
                 [Log ''Skipping LICENSE (exists).'']) \<subseteq> set (trace W))"
  using mainWith_cases [OF m]
proof (elim disjE exE conjE)
  assume "fs \<lparr>fs = files, trace = []\<rparr> (pbase (cwd e) @ ''package.json'') = None"
  then show ?thesis using pk by simp
next
  fix f
  assume "r = Rejected f" "W = \<lparr>fs = files, trace = []\<rparr>"
  then show ?thesis by simp
next
  fix raw0 pkg0 w1 f
  assume a: "writeFile e (pbase (cwd e) @ bakName e) (utf8_decode raw0) \<lparr>fs = files, trace = []\<rparr> = Inr w1"
    "r = Rejected f" "W = emit [Log (''Backed up package.json -> '' @ bakName e)] w1"
  from writeFile_Inr [OF a(1)] have "fs W = files(bakPath e \<mapsto> File (utf8_encode (utf8_decode raw0)))"
    using a(3) by (simp add: bakPath_def)
  then show ?thesis using a(2) generated_not_backup [of _ e] by simp
next
  fix raw0 pkg0 w1 pkg1 w3
  assume a: "writeFile e (pbase (cwd e) @ bakName e) (utf8_decode raw0) \<lparr>fs = files, trace = []\<rparr> = Inr w1"
    "writeFile e (pbase (cwd e) @ ''package.json'') (code_points (json_stringify e pkg1 @ ''\<newline>''))
       (emit [Log (''Backed up package.json -> '' @ bakName e)] w1) = Inr w3"
    "generate e opts pkg1 (emit [Log ''Updated package.json (merged fields).''] w3) = (r, W)"
  let ?w4 = "emit [Log ''Updated package.json (merged fields).''] w3"
  let ?skips = "Log ''Skipping src/index.js (exists).'' #
                 map (\<lambda>n. Log (''Skipping '' @ pbase (cwd e) @ n @
                                '' (exists). Use --force to overwrite.'')) (map fst DEFAULT_FILES) @
                 [Log ''Skipping LICENSE (exists).'']"
  from writeFile_Inr [OF a(1)] have f1: "fs w1 = files(bakPath e \<mapsto> File (utf8_encode (utf8_decode raw0)))"
    by (simp add: bakPath_def)
  from writeFile_Inr [OF a(2)] f1
  have f4: "fs ?w4 = files(bakPath e \<mapsto> File (utf8_encode (utf8_decode raw0)),
                           pkgPath e \<mapsto> File (utf8_encode (code_points (json_stringify e pkg1 @ ''\<newline>''))))"
    by (simp add: pkgPath_def)
  have same: "fs ?w4 (pbase (cwd e) @ n) = files (pbase (cwd e) @ n)"
    if "n \<in> set (''src/index.js'' # ''LICENSE'' # map fst DEFAULT_FILES)" for n
    using generated_not_backup [OF that, of e] f4 by simp
  have e1: "fs ?w4 (pbase (cwd e) @ ''src/index.js'') \<noteq> None"
    and e2: "\<forall>n \<in> set (map fst DEFAULT_FILES). fs ?w4 (pbase (cwd e) @ n) \<noteq> None"
    and e3: "fs ?w4 (pbase (cwd e) @ ''LICENSE'') \<noteq> None"
    using same ex by simp_all
  from generate_all_exist [OF nf e1 e2 e3, of pkg1] a(3)
  have i: "install e opts (emit ?skips ?w4) = (r, W)" by simp
  from install_summary [OF i] obtain es where
    fW: "fs W = fs ?w4" and tW: "trace W = trace (emit ?skips ?w4) @ es"
    by (auto simp: delta_def)
  have "set ?skips \<subseteq> set (trace W)" using tW by auto
  moreover have "\<forall>n \<in> set (''src/index.js'' # ''LICENSE'' # map fst DEFAULT_FILES).
            fs W (pbase (cwd e) @ n) = files (pbase (cwd e) @ n)"
    using same fW by simp
  ultimately show ?thesis by blast
qed

text \<open>
  C8, as stated, fails on the reports: a run without \<^verbatim>\<open>--force\<close> in a directory that holds
  the manifest and every generated file reports nothing as skipped when it ends before the
  template stage. A run with no argument at all prints the usage and exits with code 0; a run
  on a manifest that is not valid JSON ends in the uncaught exception of \<^verbatim>\<open>JSON.parse\<close>, with
  nothing printed.
\<close>

theorem existing_files_not_always_reported:
  "example_files_full (path_join (cwd example_env) ''package.json'') = Some (File ''{}'') \<and>
   example_files_full (path_join (path_join (cwd example_env) ''src'') ''index.js'') =
     Some (File ''export const x = 1;'') \<and>
   map (\<lambda>fname. example_files_full (path_join (cwd example_env) fname)) (map fst DEFAULT_FILES) =
     [Some (File ''export default {};''), Some (File ''{}''), Some (File ''node_modules''),
      Some (File ''src''), Some (File ''# Mine'')] \<and>
   example_files_full (path_join (cwd example_env) ''LICENSE'') =
     Some (File ''All rights reserved.'') \<and>
   run example_env [] example_files_full =
     (Exit 0, \<lparr>fs = example_files_full, trace = [Log usage_text]\<rparr>) \<and>
   Log ''Skipping LICENSE (exists).'' \<notin> set [Log usage_text] \<and>
   run example_env [''--no-install''] (example_files_full(''/proj/package.json'' \<mapsto> File ''{'')) =
     (Rejected SyntaxError,
      \<lparr>fs = example_files_full(''/proj/package.json'' \<mapsto> File ''{''), trace = []\<rparr>)"
proof -
  have 1: "run example_env [] example_files_full =
     (Exit 0, \<lparr>fs = example_files_full, trace = [Log usage_text]\<rparr>)"
    by (simp add: run_def main_def parseArgs_def usage_def)
  have 2: "Log ''Skipping LICENSE (exists).'' \<notin> set [Log usage_text]"
    by (simp add: usage_text_def)
  have 3: "example_files_full (path_join (cwd example_env) ''package.json'') = Some (File ''{}'')"
    "example_files_full (path_join (path_join (cwd example_env) ''src'') ''index.js'') =
       Some (File ''export const x = 1;'')"
    "map (\<lambda>fname. example_files_full (path_join (cwd example_env) fname)) (map fst DEFAULT_FILES) =
     [Some (File ''export default {};''), Some (File ''{}''), Some (File ''node_modules''),
      Some (File ''src''), Some (File ''# Mine'')]"
    "example_files_full (path_join (cwd example_env) ''LICENSE'') =
       Some (File ''All rights reserved.'')"
    by (simp_all add: path_join_def example_env_def example_files_full_def DEFAULT_FILES_def)
  show ?thesis by (intro conjI 1 2 3 example_run_malformed)
qed

text \<open>
  C8, amended. For every run whose configuration has no overwrite flag, in a directory where
  the manifest, the stub source file, every file of the template set and LICENSE already
  exist: each of these generated files is left as it was; and unless the run ends in an
  uncaught exception (which it can only do before the template stage: manifest unreadable
  or not valid JSON, merge or backup or manifest write failed), each of them is reported as
  skipped on the console.
\<close>

theorem existing_files_skipped:
  assumes "run e raw files = (r, W)"
    and "snd (parseArgs raw) = Inr opts"
    and "\<not> force opts"
    and "files (path_join (cwd e) ''package.json'') \<noteq> None"
    and "files (path_join (path_join (cwd e) ''src'') ''index.js'') \<noteq> None"
    and "\<forall>fname \<in> set (map fst DEFAULT_FILES). files (path_join (cwd e) fname) \<noteq> None"
    and "files (path_join (cwd e) ''LICENSE'') \<noteq> None"
  shows "fs W (path_join (path_join (cwd e) ''src'') ''index.js'') =
           files (path_join (path_join (cwd e) ''src'') ''index.js'') \<and>
         (\<forall>fname \<in> set (map fst DEFAULT_FILES).
            fs W (path_join (cwd e) fname) = files (path_join (cwd e) fname)) \<and>
         fs W (path_join (cwd e) ''LICENSE'') = files (path_join (cwd e) ''LICENSE'') \<and>
         ((\<forall>f. r \<noteq> Rejected f) \<longrightarrow>
            Log ''Skipping src/index.js (exists).'' \<in> set (trace W) \<and>
            (\<forall>fname \<in> set (map fst DEFAULT_FILES).
               Log (''Skipping '' @ path_join (cwd e) fname @ '' (exists). Use --force to overwrite.'')
                 \<in> set (trace W)) \<and>
            Log ''Skipping LICENSE (exists).'' \<in> set (trace W))"
proof -
  from main_cases [OF assms(1)] assms(2)
  have m: "mainWith e opts \<lparr>fs = files, trace = []\<rparr> = (r, W)" by auto
  have pk: "files (pbase (cwd e) @ ''package.json'') \<noteq> None"
    using assms(4) by (simp add: path_join_pbase)
  have ex: "\<forall>n \<in> set (''src/index.js'' # ''LICENSE'' # map fst DEFAULT_FILES).
               files (pbase (cwd e) @ n) \<noteq> None"
    using assms(5,6,7) by (simp add: path_join_pbase)
  from skipped_core [OF m assms(3) pk ex]
  have same: "\<forall>n \<in> set (''src/index.js'' # ''LICENSE'' # map fst DEFAULT_FILES).
            fs W (pbase (cwd e) @ n) = files (pbase (cwd e) @ n)"
    and rep: "(\<forall>f. r \<noteq> Rejected f) \<longrightarrow>
            set (Log ''Skipping src/index.js (exists).'' #
                 map (\<lambda>n. Log (''Skipping '' @ pbase (cwd e) @ n @
                                '' (exists). Use --force to overwrite.'')) (map fst DEFAULT_FILES) @
                 [Log ''Skipping LICENSE (exists).'']) \<subseteq> set (trace W)"
    by blast+
  have 1: "fs W (path_join (path_join (cwd e) ''src'') ''index.js'') =
           files (path_join (path_join (cwd e) ''src'') ''index.js'')"
    using same by (simp add: path_join_pbase)
  have 2: "\<forall>fname \<in> set (map fst DEFAULT_FILES).
            fs W (path_join (cwd e) fname) = files (path_join (cwd e) fname)"
    using same by (simp add: path_join_pbase)
  have 3: "fs W (path_join (cwd e) ''LICENSE'') = files (path_join (cwd e) ''LICENSE'')"
    using same by (simp add: path_join_pbase)
  have 4: "(\<forall>f. r \<noteq> Rejected f) \<longrightarrow>
            Log ''Skipping src/index.js (exists).'' \<in> set (trace W) \<and>
            (\<forall>fname \<in> set (map fst DEFAULT_FILES).
               Log (''Skipping '' @ path_join (cwd e) fname @ '' (exists). Use --force to overwrite.'')
                 \<in> set (trace W)) \<and>
            Log ''Skipping LICENSE (exists).'' \<in> set (trace W)"
  proof
    assume "\<forall>f. r \<noteq> Rejected f"
    with rep have s: "set (Log ''Skipping src/index.js (exists).'' #
                 map (\<lambda>n. Log (''Skipping '' @ pbase (cwd e) @ n @
                                '' (exists). Use --force to overwrite.'')) (map fst DEFAULT_FILES) @
                 [Log ''Skipping LICENSE (exists).'']) \<subseteq> set (trace W)" by blast
    have a: "Log ''Skipping src/index.js (exists).'' \<in> set (trace W)" using s by simp
    have c: "Log ''Skipping LICENSE (exists).'' \<in> set (trace W)" using s by simp
    have b: "Log (''Skipping '' @ path_join (cwd e) fname @ '' (exists). Use --force to overwrite.'')
                 \<in> set (trace W)" if "fname \<in> set (map fst DEFAULT_FILES)" for fname
    proof -
      have "Log (''Skipping '' @ pbase (cwd e) @ fname @ '' (exists). Use --force to overwrite.'')
              \<in> (\<lambda>n. Log (''Skipping '' @ pbase (cwd e) @ n @
                                '' (exists). Use --force to overwrite.'')) ` set (map fst DEFAULT_FILES)"
        using that by (rule imageI)
      then show ?thesis using s by (auto simp: path_join_pbase)
    qed
    show "Log ''Skipping src/index.js (exists).'' \<in> set (trace W) \<and>
            (\<forall>fname \<in> set (map fst DEFAULT_FILES).
               Log (''Skipping '' @ path_join (cwd e) fname @ '' (exists). Use --force to overwrite.'')
                 \<in> set (trace W)) \<and>
            Log ''Skipping LICENSE (exists).'' \<in> set (trace W)"
      using a b c by blast
  qed
  show ?thesis using 1 2 3 4 by blast
qed

text \<open>C8 at the second run of the example project.\<close>

theorem existing_files_skipped_witness:
  "snd (parseArgs [''--no-install'']) =
     Inr \<lparr>noInstall = True, force = False, name = None, pkg = ''npm''\<rparr> \<and>
   \<not> force \<lparr>noInstall = True, force = False, name = None, pkg = ''npm''\<rparr> \<and>
   example_files_full (path_join (cwd example_env) ''package.json'') \<noteq> None \<and>
   example_files_full (path_join (path_join (cwd example_env) ''src'') ''index.js'') \<noteq> None \<and>
   map (\<lambda>fname. example_files_full (path_join (cwd example_env) fname)) (map fst DEFAULT_FILES) =
     [Some (File ''export default {};''), Some (File ''{}''), Some (File ''node_modules''),
      Some (File ''src''), Some (File ''# Mine'')] \<and>
   example_files_full (path_join (cwd example_env) ''LICENSE'') \<noteq> None \<and>
   fst (run example_env [''--no-install''] example_files_full) = Exit 0 \<and>
   fs (snd (run example_env [''--no-install''] example_files_full))
      (path_join (path_join (cwd example_env) ''src'') ''index.js'') =
     Some (File ''export const x = 1;'') \<and>
   fs (snd (run example_env [''--no-install''] example_files_full))
      (path_join (cwd example_env) ''README.md'') = Some (File ''# Mine'') \<and>
   fs (snd (run example_env [''--no-install''] example_files_full))
      (path_join (cwd example_env) ''LICENSE'') = Some (File ''All rights reserved.'') \<and>
   Log ''Skipping src/index.js (exists).''
     \<in> set (trace (snd (run example_env [''--no-install''] example_files_full))) \<and>
   Log (''Skipping '' @ path_join (cwd example_env) ''README.md'' @
        '' (exists). Use --force to overwrite.'')
     \<in> set (trace (snd (run example_env [''--no-install''] example_files_full))) \<and>
   Log ''Skipping LICENSE (exists).''
     \<in> set (trace (snd (run example_env [''--no-install''] example_files_full)))"
proof -
  let ?o = "\<lparr>noInstall = True, force = False, name = None, pkg = ''npm''\<rparr>"
  let ?W = "snd (run example_env [''--no-install''] example_files_full)"
  have r: "run example_env [''--no-install''] example_files_full = (Exit 0, ?W)"
    by (simp add: example_run_again)
  have x: "fst (run example_env [''--no-install''] example_files_full) = Exit 0"
    by (simp add: example_run_again)
  have p: "snd (parseArgs [''--no-install'']) = Inr ?o"
    by (simp add: parseArgs_def parseLoop_noInstall initial_opts_def)
  have f: "\<not> force ?o" by simp
  have h1: "example_files_full (path_join (cwd example_env) ''package.json'') \<noteq> None"
    by (simp add: path_join_def example_env_def example_files_full_def)
  have h2: "example_files_full (path_join (path_join (cwd example_env) ''src'') ''index.js'') \<noteq> None"
    by (simp add: path_join_def example_env_def example_files_full_def)
  have h3: "\<forall>fname \<in> set (map fst DEFAULT_FILES).
              example_files_full (path_join (cwd example_env) fname) \<noteq> None"
    by (simp add: path_join_def example_env_def example_files_full_def DEFAULT_FILES_def)
  have h3': "map (\<lambda>fname. example_files_full (path_join (cwd example_env) fname))
               (map fst DEFAULT_FILES) =
     [Some (File ''export default {};''), Some (File ''{}''), Some (File ''node_modules''),
      Some (File ''src''), Some (File ''# Mine'')]"
    by (simp add: path_join_def example_env_def example_files_full_def DEFAULT_FILES_def)
  have h4: "example_files_full (path_join (cwd example_env) ''LICENSE'') \<noteq> None"
    by (simp add: path_join_def example_env_def example_files_full_def)
  have m: "''README.md'' \<in> set (map fst DEFAULT_FILES)" by (simp add: DEFAULT_FILES_def)
  have nr: "\<forall>f. Exit 0 \<noteq> Rejected f" by simp
  note t = existing_files_skipped [OF r p f h1 h2 h3 h4]
  have c1: "fs ?W (path_join (path_join (cwd example_env) ''src'') ''index.js'') =
              example_files_full (path_join (path_join (cwd example_env) ''src'') ''index.js'')"
    using t by (rule conjunct1)
  have c2: "fs ?W (path_join (cwd example_env) ''README.md'') =
              example_files_full (path_join (cwd example_env) ''README.md'')"
    using t [THEN conjunct2, THEN conjunct1, rule_format, OF m] .
  have c3: "fs ?W (path_join (cwd example_env) ''LICENSE'') =
              example_files_full (path_join (cwd example_env) ''LICENSE'')"
    using t [THEN conjunct2, THEN conjunct2, THEN conjunct1] .
  note s = t [THEN conjunct2, THEN conjunct2, THEN conjunct2, THEN mp, OF nr]
  have s1: "Log ''Skipping src/index.js (exists).'' \<in> set (trace ?W)"
    using s by (rule conjunct1)
  have s2: "Log (''Skipping '' @ path_join (cwd example_env) ''README.md'' @
                 '' (exists). Use --force to overwrite.'') \<in> set (trace ?W)"
    using s [THEN conjunct2, THEN conjunct1, rule_format, OF m] .
  have s3: "Log ''Skipping LICENSE (exists).'' \<in> set (trace ?W)"
    using s [THEN conjunct2, THEN conjunct2] .
  have v1: "example_files_full (path_join (path_join (cwd example_env) ''src'') ''index.js'') =
              Some (File ''export const x = 1;'')"
    by (simp add: path_join_def example_env_def example_files_full_def)
  have v2: "example_files_full (path_join (cwd example_env) ''README.md'') = Some (File ''# Mine'')"
    by (simp add: path_join_def example_env_def example_files_full_def)
  have v3: "example_files_full (path_join (cwd example_env) ''LICENSE'') =
              Some (File ''All rights reserved.'')"
    by (simp add: path_join_def example_env_def example_files_full_def)
  show ?thesis
    by (intro conjI p f h1 h2 h3' h4 x c1 [unfolded v1] c2 [unfolded v2] c3 [unfolded v3] s1 s2 s3)
qed

end
